theory Spec2Isabelle
  imports Main
begin

section \<open>The OpenClaw gateway client (src/lib/openclaw/client.ts)\<close>

text \<open>
  The class \<open>OpenClawClient\<close> is event driven: its methods and the callbacks it installs on
  the socket and on timers all mutate the fields of one object. The embedding is explicit
  state passing over a record of those fields. Objects the client only holds a reference to
  (sockets, timers, promises) live in stores indexed by a number, so that a callback that
  captured one of them and the field \<open>this.ws\<close> can refer to the same object.
  Closures are represented by the variables they capture.
\<close>

subsection \<open>Values on the wire\<close>

datatype jvalue =
    JNull
  | JBool bool
  | JNum int
  | JStr string
  | JArr "jvalue list"
  | JObj "(string \<times> jvalue) list"

text \<open>The keys of \<open>pendingRequests\<close> and the field \<open>id\<close> of a message: \<open>string | number\<close>.\<close>

datatype ident = IdStr string | IdNum int

record error_obj =
  message :: string

text \<open>
  The parameter type of \<open>handleMessage\<close>:
  \<open>OpenClawMessage & { type?: string; ok?: boolean; payload?: unknown }\<close>. Every field is
  optional; an absent field (\<open>undefined\<close>) is \<open>None\<close>. The fields \<open>event\<close>, \<open>id\<close>, \<open>error\<close>,
  \<open>result\<close>, \<open>method\<close> and \<open>params\<close> are the ones the client reads.
\<close>

record openclaw_message =
  msg_type :: "string option"
  msg_event :: "string option"
  msg_id :: "ident option"
  msg_ok :: "bool option"
  msg_payload :: "jvalue option"
  msg_result :: "jvalue option"
  msg_error :: "error_obj option"
  msg_method :: "string option"
  msg_params :: "jvalue option"

text \<open>The argument of \<open>ws.onmessage\<close>: text that \<open>JSON.parse\<close> rejects, or a parsed message.\<close>

datatype inbound = Unparsable | Parsed openclaw_message

text \<open>The frame \<open>{ type: 'req', id, method, params }\<close> that the client sends.\<close>

record request_frame =
  req_id :: string
  req_method :: string
  req_params :: "jvalue option"

subsection \<open>Exceptions, promises, timers, sockets\<close>

datatype exn =
    Error string
  | TypeError
  | InvalidStateError

text \<open>A promise is unsettled (\<open>None\<close>) or settled once and for all.\<close>

datatype settlement = Resolved "jvalue option" | Rejected exn

text \<open>
  An entry \<open>{ resolve, reject }\<close> of \<open>pendingRequests\<close>. \<open>call\<close> stores the two functions of
  its own promise; the challenge handler stores two closures over the connection attempt's
  promise. The number is the index of that promise.
\<close>

datatype pending_entry = CallEntry nat | HandshakeEntry nat

text \<open>
  The three callbacks given to \<open>setTimeout\<close>, with what each captures: the connection
  attempt's promise; nothing; the id, the method and the promise of a call.
\<close>

datatype timer_cb =
    ConnectionTimeout nat
  | Reconnect
  | CallTimeout ident string nat

datatype ready_state = CONNECTING | OPEN | CLOSING | CLOSED

text \<open>
  The four handlers of a socket are closures created in one \<open>connect\<close> call; each captures
  \<open>connectionTimeout\<close> (a timer index) and \<open>resolve\<close>/\<open>reject\<close> (a promise index). A handler
  set to \<open>null\<close> is \<open>None\<close>.
\<close>

type_synonym closure = "nat \<times> nat"

record websocket =
  sock_url :: string
  sock_token :: "string option"
  readyState :: ready_state
  onopen :: "closure option"
  onclose :: "closure option"
  onerror :: "closure option"
  onmessage :: "closure option"

datatype emit_arg =
    NoArg
  | ErrorArg
  | MessageArg openclaw_message
  | ParamsArg "jvalue option"

subsection \<open>The client object\<close>

text \<open>
  The first group of fields is the class's own. \<open>url_parses\<close> is a parameter: whether
  \<open>new URL(this.url)\<close> and \<open>new WebSocket(...)\<close> accept the configured URL. The second group is
  the environment: the stores of sockets, timers and promises, the promises awaited by a
  running reconnect callback, and the observable effects (frames sent, events emitted, and
  the console line of a reconnect attempt; the other console lines are not modelled).
\<close>

record client =
  url :: string
  token :: string
  url_parses :: bool
  ws :: "nat option"
  reconnectTimer :: "nat option"
  messageId :: nat
  pendingRequests :: "ident \<rightharpoonup> pending_entry"
  connected :: bool
  authenticated :: bool
  connecting :: "nat option"
  autoReconnect :: bool
  sockets :: "websocket list"
  timers :: "(timer_cb \<times> nat) option list"
  promises :: "settlement option list"
  reconnectAwait :: "nat list"
  sent :: "(nat \<times> request_frame) list"
  emitted :: "(string \<times> emit_arg) list"
  console :: "string list"

text \<open>The constructor.\<close>

definition new_client :: "string \<Rightarrow> string \<Rightarrow> bool \<Rightarrow> client" where
  "new_client u tok parses =
     \<lparr> url = u, token = tok, url_parses = parses,
       ws = None, reconnectTimer = None, messageId = 0,
       pendingRequests = Map.empty,
       connected = False, authenticated = False, connecting = None,
       autoReconnect = True,
       sockets = [], timers = [], promises = [], reconnectAwait = [],
       sent = [], emitted = [], console = [] \<rparr>"

subsection \<open>Primitives of the runtime\<close>

text \<open>\<open>resolve(v)\<close> and \<open>reject(e)\<close> of a promise: the first settlement wins.\<close>

definition settle :: "nat \<Rightarrow> settlement \<Rightarrow> client \<Rightarrow> client" where
  "settle p v s =
     (if p < length (promises s) \<and> promises s ! p = None
      then s\<lparr>promises := (promises s)[p := Some v]\<rparr>
      else s)"

text \<open>\<open>new Promise(...)\<close>: the new promise's index and the extended store.\<close>

definition new_promise :: "client \<Rightarrow> nat \<times> client" where
  "new_promise s = (length (promises s), s\<lparr>promises := promises s @ [None]\<rparr>)"

definition setTimeout :: "timer_cb \<Rightarrow> nat \<Rightarrow> client \<Rightarrow> nat \<times> client" where
  "setTimeout cb ms s = (length (timers s), s\<lparr>timers := timers s @ [Some (cb, ms)]\<rparr>)"

definition clearTimeout :: "nat \<Rightarrow> client \<Rightarrow> client" where
  "clearTimeout t s = s\<lparr>timers := (timers s)[t := None]\<rparr>"

text \<open>
  \<open>this.emit(name, arg)\<close>: recorded in order. \<open>EventEmitter\<close> calls the listeners registered
  under \<open>name\<close> with \<open>arg\<close>; listeners are the caller's code and are taken to return without
  throwing and without calling back into the client.
\<close>

definition emit :: "string \<Rightarrow> emit_arg \<Rightarrow> client \<Rightarrow> client" where
  "emit name arg s = s\<lparr>emitted := emitted s @ [(name, arg)]\<rparr>"

definition sock_ready :: "client \<Rightarrow> nat \<Rightarrow> ready_state option" where
  "sock_ready s k =
     (if k < length (sockets s) then Some (readyState (sockets s ! k)) else None)"

definition upd_socket :: "nat \<Rightarrow> (websocket \<Rightarrow> websocket) \<Rightarrow> client \<Rightarrow> client" where
  "upd_socket k f s =
     (if k < length (sockets s)
      then s\<lparr>sockets := (sockets s)[k := f (sockets s ! k)]\<rparr>
      else s)"

text \<open>
  \<open>WebSocket.close()\<close>: an open or connecting socket starts closing; on a socket that is
  closing or closed the call does nothing. The close event comes later, from the environment.
\<close>

definition ws_close :: "nat \<Rightarrow> client \<Rightarrow> client" where
  "ws_close k s =
     (if sock_ready s k = Some OPEN \<or> sock_ready s k = Some CONNECTING
      then upd_socket k (\<lambda>w. w\<lparr>readyState := CLOSING\<rparr>) s
      else s)"

text \<open>
  \<open>WebSocket.send(data)\<close>: throws \<open>InvalidStateError\<close> while connecting, transmits when
  open, silently discards when closing or closed.
\<close>

definition ws_send :: "nat \<Rightarrow> request_frame \<Rightarrow> client \<Rightarrow> exn option \<times> client" where
  "ws_send k fr s =
     (if sock_ready s k = Some CONNECTING then (Some InvalidStateError, s)
      else if sock_ready s k = Some OPEN then (None, s\<lparr>sent := sent s @ [(k, fr)]\<rparr>)
      else (None, s))"

text \<open>\<open>this.ws?.readyState === WebSocket.OPEN\<close>\<close>

definition ws_is_open :: "client \<Rightarrow> bool" where
  "ws_is_open s = (case ws s of None \<Rightarrow> False | Some k \<Rightarrow> sock_ready s k = Some OPEN)"

text \<open>\<open>this.ws?.close()\<close>\<close>

definition close_current :: "client \<Rightarrow> client" where
  "close_current s = (case ws s of None \<Rightarrow> s | Some k \<Rightarrow> ws_close k s)"

subsection \<open>The request correlator\<close>

text \<open>
  The two functions of a pending entry. For a call they are the promise's own. For the
  handshake they are the closures of lines 131-143: \<open>resolve\<close> ignores its argument, sets both
  flags, clears \<open>connecting\<close>, emits \<open>connected\<close> and resolves the attempt; \<open>reject\<close> clears
  \<open>connecting\<close>, closes the current socket and rejects the attempt with a wrapped message.
\<close>

fun entry_resolve :: "pending_entry \<Rightarrow> jvalue option \<Rightarrow> client \<Rightarrow> client" where
  "entry_resolve (CallEntry p) v s = settle p (Resolved v) s"
| "entry_resolve (HandshakeEntry p) v s =
     settle p (Resolved None)
       (emit ''connected'' NoArg
          (s\<lparr>connected := True, authenticated := True, connecting := None\<rparr>))"

fun entry_reject :: "pending_entry \<Rightarrow> string \<Rightarrow> client \<Rightarrow> client" where
  "entry_reject (CallEntry p) m s = settle p (Rejected (Error m)) s"
| "entry_reject (HandshakeEntry p) m s =
     settle p (Rejected (Error (''Authentication failed: '' @ m)))
       (close_current (s\<lparr>connecting := None\<rparr>))"

text \<open>JavaScript truthiness of \<open>data.method\<close>: a present, non-empty string.\<close>

definition truthy_method :: "openclaw_message \<Rightarrow> bool" where
  "truthy_method d = (case msg_method d of None \<Rightarrow> False | Some m \<Rightarrow> m \<noteq> [])"

text \<open>Lines 198-202: the events/notifications branch.\<close>

definition notify :: "openclaw_message \<Rightarrow> client \<Rightarrow> client" where
  "notify d s =
     (if truthy_method d
      then emit (the (msg_method d)) (ParamsArg (msg_params d))
             (emit ''notification'' (MessageArg d) s)
      else s)"

text \<open>Lines 184-202: the legacy branch, then the notification branch.\<close>

definition handleLegacy :: "openclaw_message \<Rightarrow> client \<Rightarrow> client" where
  "handleLegacy d s =
     (case msg_id d of
        None \<Rightarrow> notify d s
      | Some legacyId \<Rightarrow>
          (case pendingRequests s legacyId of
             None \<Rightarrow> notify d s
           | Some pending \<Rightarrow>
               let s1 = s\<lparr>pendingRequests := (pendingRequests s)(legacyId := None)\<rparr> in
               (case msg_error d of
                  Some e \<Rightarrow> entry_reject pending (message e) s1
                | None \<Rightarrow> entry_resolve pending (msg_result d) s1)))"

text \<open>Lines 166-203.\<close>

definition handleMessage :: "openclaw_message \<Rightarrow> client \<Rightarrow> client" where
  "handleMessage d s =
     (if msg_type d = Some ''res'' \<and> msg_id d \<noteq> None
      then
        (case pendingRequests s (the (msg_id d)) of
           Some pending \<Rightarrow>
             let s1 = s\<lparr>pendingRequests := (pendingRequests s)(the (msg_id d) := None)\<rparr> in
             (if msg_ok d = Some False \<and> msg_error d \<noteq> None
              then entry_reject pending (message (the (msg_error d))) s1
              else entry_resolve pending (msg_payload d) s1)
         | None \<Rightarrow> handleLegacy d s)
      else handleLegacy d s)"

text \<open>
  Lines 222-243. \<open>uuid\<close> is the value of \<open>crypto.randomUUID()\<close>. The result is \<open>Inl e\<close> when the
  async function throws \<open>e\<close> before creating its promise, and \<open>Inr p\<close> with the promise
  otherwise; an exception of \<open>send\<close> inside the executor rejects that promise.
\<close>

definition call :: "string \<Rightarrow> jvalue option \<Rightarrow> string \<Rightarrow> client \<Rightarrow> (exn + nat) \<times> client" where
  "call method params uuid s =
     (if ws s = None \<or> \<not> connected s \<or> \<not> authenticated s
      then (Inl (Error ''Not connected to OpenClaw Gateway''), s)
      else
        let (p, s1) = new_promise s;
            s2 = s1\<lparr>pendingRequests := (pendingRequests s1)(IdStr uuid \<mapsto> CallEntry p)\<rparr>;
            (t, s3) = setTimeout (CallTimeout (IdStr uuid) method p) 30000 s2;
            (thrown, s4) =
               ws_send (the (ws s3))
                 \<lparr>req_id = uuid, req_method = method, req_params = params\<rparr> s3
        in (Inr p, (case thrown of None \<Rightarrow> s4 | Some e \<Rightarrow> settle p (Rejected e) s4)))"

text \<open>Lines 234-239, the callback of the call's timer.\<close>

definition callTimeout :: "ident \<Rightarrow> string \<Rightarrow> nat \<Rightarrow> client \<Rightarrow> client" where
  "callTimeout i method p s =
     (if pendingRequests s i \<noteq> None
      then settle p (Rejected (Error (''Request timeout: '' @ method)))
             (s\<lparr>pendingRequests := (pendingRequests s)(i := None)\<rparr>)
      else s)"

subsection \<open>The connection manager\<close>

text \<open>The authentication request of lines 110-127.\<close>

definition connect_request :: "string \<Rightarrow> string \<Rightarrow> request_frame" where
  "connect_request requestId tok =
     \<lparr> req_id = requestId, req_method = ''connect'',
       req_params = Some (JObj
         [(''minProtocol'', JNum 3), (''maxProtocol'', JNum 3),
          (''client'', JObj [(''id'', JStr ''gateway-client''), (''version'', JStr ''1.0.0''),
                            (''platform'', JStr ''web''), (''mode'', JStr ''ui'')]),
          (''auth'', JObj [(''token'', JStr tok)])]) \<rparr>"

text \<open>Lines 62-67, the callback of the connection timer.\<close>

definition connectionTimeout :: "nat \<Rightarrow> client \<Rightarrow> client" where
  "connectionTimeout p s =
     (if \<not> connected s
      then settle p (Rejected (Error ''Connection timeout'')) (close_current s)
      else s)"

text \<open>Lines 69-74.\<close>

definition ws_onopen :: "closure \<Rightarrow> client \<Rightarrow> client" where
  "ws_onopen cl s = clearTimeout (fst cl) s"

text \<open>Lines 205-220, without the timer's callback.\<close>

definition scheduleReconnect :: "client \<Rightarrow> client" where
  "scheduleReconnect s =
     (if reconnectTimer s \<noteq> None \<or> \<not> autoReconnect s then s
      else let (t, s1) = setTimeout Reconnect 10000 s in s1\<lparr>reconnectTimer := Some t\<rparr>)"

text \<open>Lines 76-89.\<close>

definition ws_onclose :: "closure \<Rightarrow> client \<Rightarrow> client" where
  "ws_onclose cl s =
     (let s1 = clearTimeout (fst cl) s;
          wasConnected = connected s1;
          s2 = s1\<lparr>connected := False, authenticated := False, connecting := None\<rparr>;
          s3 = emit ''disconnected'' NoArg s2
      in if autoReconnect s3 \<and> wasConnected then scheduleReconnect s3 else s3)"

text \<open>Lines 91-99.\<close>

definition ws_onerror :: "closure \<Rightarrow> client \<Rightarrow> client" where
  "ws_onerror cl s =
     (let s1 = clearTimeout (fst cl) s;
          s2 = emit ''error'' ErrorArg s1
      in if \<not> connected s2
         then settle (snd cl) (Rejected (Error ''Failed to connect to OpenClaw Gateway''))
                (s2\<lparr>connecting := None\<rparr>)
         else s2)"

text \<open>
  Lines 101-156. \<open>uuid\<close> is the value of \<open>crypto.randomUUID()\<close>, used by the challenge branch
  only. Whatever the \<open>try\<close> block throws (a parse error, \<open>this.ws\<close> being \<open>null\<close> at the send,
  an exception of \<open>send\<close>) is caught and logged, and what was assigned before stays.
\<close>

definition ws_onmessage :: "closure \<Rightarrow> inbound \<Rightarrow> string \<Rightarrow> client \<Rightarrow> client" where
  "ws_onmessage cl raw uuid s =
     (case raw of
        Unparsable \<Rightarrow> s
      | Parsed d \<Rightarrow>
          if msg_type d = Some ''event'' \<and> msg_event d = Some ''connect.challenge''
          then
            let s1 = s\<lparr>pendingRequests :=
                        (pendingRequests s)(IdStr uuid \<mapsto> HandshakeEntry (snd cl))\<rparr>
            in (case ws s1 of
                  None \<Rightarrow> s1
                | Some k \<Rightarrow> snd (ws_send k (connect_request uuid (token s1)) s1))
          else handleMessage d s)"

text \<open>What \<open>connect\<close> returns: at once, or the promise \<open>this.connecting\<close>.\<close>

datatype connect_result = Returned | Awaits nat

text \<open>Lines 42-51: the handlers of the old socket are removed and it is closed.\<close>

definition cleanup_existing :: "client \<Rightarrow> client" where
  "cleanup_existing s =
     (case ws s of
        None \<Rightarrow> s
      | Some k \<Rightarrow>
          (ws_close k
             (upd_socket k
                (\<lambda>w. w\<lparr>onopen := None, onclose := None, onerror := None, onmessage := None\<rparr>) s))
          \<lparr>ws := None\<rparr>)"

text \<open>
  Lines 27-164. The executor of the promise runs inside \<open>new Promise\<close>, before the
  assignment to \<open>this.connecting\<close>: when the \<open>try\<close> block throws, the \<open>catch\<close> block's
  \<open>this.connecting = null\<close> is overwritten by that assignment.
\<close>

definition connect :: "client \<Rightarrow> connect_result \<times> client" where
  "connect s =
     (if connected s \<and> ws_is_open s then (Returned, s)
      else
        (case connecting s of
           Some p \<Rightarrow> (Awaits p, s)
         | None \<Rightarrow>
             let (p, s1) = new_promise s;
                 s2 = cleanup_existing s1
             in if \<not> url_parses s2
                then (Awaits p, (settle p (Rejected TypeError) s2)\<lparr>connecting := Some p\<rparr>)
                else
                  let k = length (sockets s2);
                      t = length (timers s2);
                      w = \<lparr> sock_url = url s2,
                            sock_token = (if token s2 \<noteq> [] then Some (token s2) else None),
                            readyState = CONNECTING,
                            onopen = Some (t, p), onclose = Some (t, p),
                            onerror = Some (t, p), onmessage = Some (t, p) \<rparr>;
                      s3 = s2\<lparr>sockets := sockets s2 @ [w], ws := Some k\<rparr>;
                      s4 = snd (setTimeout (ConnectionTimeout p) 10000 s3)
                  in (Awaits p, s4\<lparr>connecting := Some p\<rparr>)))"

text \<open>
  Lines 208-219, the callback of the reconnect timer up to its \<open>await\<close>. When \<open>connect\<close>
  returns a promise, the rest of the callback (the \<open>catch\<close> block) waits for it.
\<close>

definition reconnectCallback :: "client \<Rightarrow> client" where
  "reconnectCallback s =
     (let s1 = s\<lparr>reconnectTimer := None\<rparr>
      in if \<not> autoReconnect s1 then s1
         else
           let s2 = s1\<lparr>console := console s1 @ [''[OpenClaw] Attempting reconnect...'']\<rparr>;
               (r, s3) = connect s2
           in (case r of
                 Returned \<Rightarrow> s3
               | Awaits p \<Rightarrow> s3\<lparr>reconnectAwait := reconnectAwait s3 @ [p]\<rparr>))"

text \<open>
  The rest of the reconnect callback, once the awaited promise \<open>p\<close> is settled: a rejection
  reaches the \<open>catch\<close> block, which schedules another attempt.
\<close>

definition reconnectResume :: "nat \<Rightarrow> client \<Rightarrow> client" where
  "reconnectResume p s =
     (let s1 = s\<lparr>reconnectAwait := remove1 p (reconnectAwait s)\<rparr>
      in (case promises s1 ! p of
            Some (Rejected e) \<Rightarrow> scheduleReconnect s1
          | _ \<Rightarrow> s1))"

text \<open>Lines 335-349.\<close>

definition disconnect :: "client \<Rightarrow> client" where
  "disconnect s =
     (let s1 = s\<lparr>autoReconnect := False\<rparr>;
          s2 = (case reconnectTimer s1 of
                  Some t \<Rightarrow> (clearTimeout t s1)\<lparr>reconnectTimer := None\<rparr>
                | None \<Rightarrow> s1);
          s3 = (case ws s2 of
                  Some k \<Rightarrow> (ws_close k (upd_socket k (\<lambda>w. w\<lparr>onclose := None\<rparr>) s2))\<lparr>ws := None\<rparr>
                | None \<Rightarrow> s2)
      in s3\<lparr>connected := False, authenticated := False, connecting := None\<rparr>)"

text \<open>Lines 351-353.\<close>

definition isConnected :: "client \<Rightarrow> bool" where
  "isConnected s = (connected s \<and> authenticated s \<and> ws_is_open s)"

text \<open>Lines 355-361.\<close>

definition setAutoReconnect :: "bool \<Rightarrow> client \<Rightarrow> client" where
  "setAutoReconnect enabled s =
     (let s1 = s\<lparr>autoReconnect := enabled\<rparr>
      in if \<not> enabled \<and> reconnectTimer s1 \<noteq> None
         then (clearTimeout (the (reconnectTimer s1)) s1)\<lparr>reconnectTimer := None\<rparr>
         else s1)"

subsection \<open>Runs of the client\<close>

text \<open>
  What can happen to a client: a caller invokes a public method, a socket reports an
  event, a timer expires, or the suspended reconnect callback resumes. The socket events
  follow the WebSocket interface: a connecting socket opens; only an open socket delivers
  messages; a socket that is not yet closed can report an error, and closes once.
\<close>

datatype event =
    Connect
  | Disconnect
  | SetAutoReconnect bool
  | Call string "jvalue option" string
  | SockOpen nat
  | SockMessage nat inbound string
  | SockError nat
  | SockClose nat
  | TimerFires nat
  | ReconnectResumes nat

fun enabled :: "event \<Rightarrow> client \<Rightarrow> bool" where
  "enabled (SockOpen k) s = (sock_ready s k = Some CONNECTING)"
| "enabled (SockMessage k raw uuid) s = (sock_ready s k = Some OPEN)"
| "enabled (SockError k) s =
     (sock_ready s k = Some CONNECTING \<or> sock_ready s k = Some OPEN \<or> sock_ready s k = Some CLOSING)"
| "enabled (SockClose k) s =
     (sock_ready s k = Some CONNECTING \<or> sock_ready s k = Some OPEN \<or> sock_ready s k = Some CLOSING)"
| "enabled (TimerFires t) s = (t < length (timers s) \<and> timers s ! t \<noteq> None)"
| "enabled (ReconnectResumes p) s =
     (p \<in> set (reconnectAwait s) \<and> p < length (promises s) \<and> promises s ! p \<noteq> None)"
| "enabled _ s = True"

fun runTimer :: "timer_cb \<Rightarrow> client \<Rightarrow> client" where
  "runTimer (ConnectionTimeout p) s = connectionTimeout p s"
| "runTimer Reconnect s = reconnectCallback s"
| "runTimer (CallTimeout i method p) s = callTimeout i method p s"

text \<open>The effect of an enabled event. A handler that was set to \<open>null\<close> does not run.\<close>

fun fire :: "event \<Rightarrow> client \<Rightarrow> client" where
  "fire Connect s = snd (connect s)"
| "fire Disconnect s = disconnect s"
| "fire (SetAutoReconnect b) s = setAutoReconnect b s"
| "fire (Call method params uuid) s = snd (call method params uuid s)"
| "fire (SockOpen k) s =
     (let s1 = upd_socket k (\<lambda>w. w\<lparr>readyState := OPEN\<rparr>) s
      in (case onopen (sockets s1 ! k) of None \<Rightarrow> s1 | Some cl \<Rightarrow> ws_onopen cl s1))"
| "fire (SockMessage k raw uuid) s =
     (case onmessage (sockets s ! k) of None \<Rightarrow> s | Some cl \<Rightarrow> ws_onmessage cl raw uuid s)"
| "fire (SockError k) s =
     (case onerror (sockets s ! k) of None \<Rightarrow> s | Some cl \<Rightarrow> ws_onerror cl s)"
| "fire (SockClose k) s =
     (let s1 = upd_socket k (\<lambda>w. w\<lparr>readyState := CLOSED\<rparr>) s
      in (case onclose (sockets s1 ! k) of None \<Rightarrow> s1 | Some cl \<Rightarrow> ws_onclose cl s1))"
| "fire (TimerFires t) s =
     (case timers s ! t of
        None \<Rightarrow> s
      | Some (cb, ms) \<Rightarrow> runTimer cb (s\<lparr>timers := (timers s)[t := None]\<rparr>))"
| "fire (ReconnectResumes p) s = reconnectResume p s"

definition step :: "client \<Rightarrow> event \<Rightarrow> client" where
  "step s e = (if enabled e s then fire e s else s)"

text \<open>A run: the events in order; an event that is not enabled is skipped.\<close>

definition run :: "event list \<Rightarrow> client \<Rightarrow> client" where
  "run es s = foldl step s es"

text \<open>The armed reconnect timers, by index.\<close>

definition is_reconnect :: "(timer_cb \<times> nat) option \<Rightarrow> bool" where
  "is_reconnect x = (case x of Some (Reconnect, ms) \<Rightarrow> True | _ \<Rightarrow> False)"

definition armed_reconnects :: "client \<Rightarrow> nat list" where
  "armed_reconnects s = filter (\<lambda>t. is_reconnect (timers s ! t)) [0..<length (timers s)]"

subsection \<open>Invariants of a run\<close>

text \<open>
  The reconnect policy depends on five things only: the timers, \<open>reconnectTimer\<close>,
  \<open>autoReconnect\<close>, \<open>ws\<close> and the handlers installed on the sockets. The invariant says that
  the armed reconnect timer, if any, is the one recorded in \<open>reconnectTimer\<close>, that it is
  recorded only while auto-reconnect is on, that the timer captured by a socket's handlers is
  never a reconnect timer, and that the current socket has its \<open>onclose\<close> handler.
\<close>

type_synonym handler_set = "closure option \<times> closure option \<times> closure option \<times> closure option"

definition handlers :: "websocket \<Rightarrow> handler_set" where
  "handlers w = (onopen w, onclose w, onerror w, onmessage w)"

definition c_ok :: "(timer_cb \<times> nat) option list \<Rightarrow> closure option \<Rightarrow> bool" where
  "c_ok ts c =
     (case c of None \<Rightarrow> True | Some cl \<Rightarrow> fst cl < length ts \<and> \<not> is_reconnect (ts ! fst cl))"

definition hs_ok :: "(timer_cb \<times> nat) option list \<Rightarrow> handler_set \<Rightarrow> bool" where
  "hs_ok ts h = (case h of (a, b, c, d) \<Rightarrow> c_ok ts a \<and> c_ok ts b \<and> c_ok ts c \<and> c_ok ts d)"

definition view_inv ::
  "(timer_cb \<times> nat) option list \<Rightarrow> nat option \<Rightarrow> bool \<Rightarrow> nat option \<Rightarrow> handler_set list \<Rightarrow> bool" where
  "view_inv ts rt ar w hs =
     ((\<forall>t<length ts. is_reconnect (ts ! t) \<longrightarrow> rt = Some t)
      \<and> (\<forall>t. rt = Some t \<longrightarrow> t < length ts \<and> ts ! t = Some (Reconnect, 10000) \<and> ar)
      \<and> (\<forall>h\<in>set hs. hs_ok ts h)
      \<and> (\<forall>k. w = Some k \<longrightarrow> k < length hs \<and> fst (snd (hs ! k)) \<noteq> None))"

definition timer_inv :: "client \<Rightarrow> bool" where
  "timer_inv s =
     view_inv (timers s) (reconnectTimer s) (autoReconnect s) (ws s) (map handlers (sockets s))"

text \<open>
  Two clients with the same view satisfy the invariant together. A client is quiet when
  auto-reconnect is off and no reconnect timer is armed; a step is calm when it changes
  neither \<open>autoReconnect\<close> nor the console and arms no reconnect timer.
\<close>

definition same_view :: "client \<Rightarrow> client \<Rightarrow> bool" where
  "same_view s' s =
     (timers s' = timers s \<and> reconnectTimer s' = reconnectTimer s
      \<and> autoReconnect s' = autoReconnect s \<and> ws s' = ws s
      \<and> map handlers (sockets s') = map handlers (sockets s)
      \<and> console s' = console s)"

definition quiet :: "client \<Rightarrow> bool" where
  "quiet s = (\<not> autoReconnect s \<and> (\<forall>x\<in>set (timers s). \<not> is_reconnect x))"

definition calm :: "client \<Rightarrow> client \<Rightarrow> bool" where
  "calm s' s =
     (autoReconnect s' = autoReconnect s \<and> console s' = console s
      \<and> (\<forall>x\<in>set (timers s'). x \<in> set (timers s) \<or> \<not> is_reconnect x))"

text \<open>
  The handler that closes a session is installed on the current socket only: \<open>connect\<close>
  removes the handlers of the socket it replaces and \<open>disconnect\<close> removes \<open>onclose\<close>.
\<close>

definition current_only :: "client \<Rightarrow> bool" where
  "current_only s =
     (\<forall>k<length (sockets s). onclose (sockets s ! k) \<noteq> None \<longrightarrow> ws s = Some k)"

subsection \<open>What an event can settle, clear and create\<close>







text \<open>
  The promise store only grows, and a promise changes only from unsettled to settled. The
  promises an event can settle are the one captured by the pending entry that an inbound
  message addresses, the one captured by the \<open>onerror\<close> handler of the socket, and the one
  captured by the timer that expires.
\<close>

definition evolves ::
  "(nat \<Rightarrow> bool) \<Rightarrow> settlement option list \<Rightarrow> settlement option list \<Rightarrow> bool" where
  "evolves Q ps ps' =
     (length ps \<le> length ps'
      \<and> (\<forall>q<length ps. ps' ! q = ps ! q \<or> (ps ! q = None \<and> Q q)))"


text \<open>The closures installed as handlers on some socket.\<close>

definition hset :: "handler_set \<Rightarrow> closure set" where
  "hset h = (case h of (a, b, c, d) \<Rightarrow> set_option a \<union> set_option b \<union> set_option c \<union> set_option d)"

definition closures :: "client \<Rightarrow> closure set" where
  "closures s = (\<Union>h\<in>set (map handlers (sockets s)). hset h)"

text \<open>
  The timer store only grows as well. An event clears a timer only when the timer is
  captured by a socket handler, is the recorded reconnect timer, or is the one that expires;
  a timer it creates captures the promise created by the same event, and an id only if the
  event generated it.
\<close>

definition tevolves ::
  "(nat \<Rightarrow> bool) \<Rightarrow> (timer_cb \<Rightarrow> bool) \<Rightarrow>
   (timer_cb \<times> nat) option list \<Rightarrow> (timer_cb \<times> nat) option list \<Rightarrow> bool" where
  "tevolves C N ts ts' =
     (length ts \<le> length ts'
      \<and> (\<forall>t<length ts. ts' ! t = ts ! t \<or> (ts' ! t = None \<and> C t))
      \<and> (\<forall>t cb ms. length ts \<le> t \<and> t < length ts' \<and> ts' ! t = Some (cb, ms) \<longrightarrow> N cb))"






subsection \<open>Frames and sessions used as concrete inputs\<close>

text \<open>
  The wire frames of the protocol, as \<open>JSON.parse\<close> delivers them: the challenge event, a
  successful and a failed response, and an event with a given name.
\<close>

definition no_fields :: openclaw_message where
  "no_fields =
     \<lparr> msg_type = None, msg_event = None, msg_id = None, msg_ok = None,
       msg_payload = None, msg_result = None, msg_error = None, msg_method = None,
       msg_params = None \<rparr>"

definition challenge_frame :: openclaw_message where
  "challenge_frame =
     no_fields\<lparr>msg_type := Some ''event'', msg_event := Some ''connect.challenge''\<rparr>"

definition res_ok_frame :: "string \<Rightarrow> jvalue \<Rightarrow> openclaw_message" where
  "res_ok_frame i v =
     no_fields\<lparr>msg_type := Some ''res'', msg_id := Some (IdStr i), msg_ok := Some True,
               msg_payload := Some v\<rparr>"

definition res_error_frame :: "string \<Rightarrow> string \<Rightarrow> openclaw_message" where
  "res_error_frame i m =
     no_fields\<lparr>msg_type := Some ''res'', msg_id := Some (IdStr i), msg_ok := Some False,
               msg_error := Some \<lparr>message = m\<rparr>\<rparr>"

definition event_frame :: "string \<Rightarrow> openclaw_message" where
  "event_frame name = no_fields\<lparr>msg_type := Some ''event'', msg_event := Some name\<rparr>"

text \<open>
  A client that connects to a gateway, receives the challenge, is authenticated and then
  issues one call.
\<close>

definition fresh_client :: client where
  "fresh_client = new_client ''ws://127.0.0.1:18789'' ''secret'' True"

definition handshaking :: client where
  "handshaking =
     run [Connect, SockOpen 0, SockMessage 0 (Parsed challenge_frame) ''h1''] fresh_client"

definition authenticated_session :: client where
  "authenticated_session =
     step handshaking (SockMessage 0 (Parsed (res_ok_frame ''h1'' JNull)) [])"

definition calling :: client where
  "calling = step authenticated_session (Call ''sessions.list'' None ''r1'')"

text \<open>
  A session whose gateway sends two challenges, accepts the first handshake and refuses
  the second: the refusal closes the socket and leaves \<open>connected\<close> set; \<open>connect\<close> then starts
  a second attempt on a second socket, which opens.
\<close>

definition stale_session :: client where
  "stale_session =
     run [SockMessage 0 (Parsed challenge_frame) ''h2'',
          SockMessage 0 (Parsed (res_ok_frame ''h1'' JNull)) [],
          SockMessage 0 (Parsed (res_error_frame ''h2'' ''denied'')) [],
          Connect] handshaking"


text \<open>
  An authenticated session whose socket closes; then either the reconnect timer expires
  and the new socket fails, or the caller connects again and is authenticated on a second
  socket before the timer expires.
\<close>

definition closed_session :: client where
  "closed_session = step authenticated_session (SockClose 0)"

definition reconnecting :: client where
  "reconnecting = run [TimerFires 1, SockError 1] closed_session"

definition second_session :: client where
  "second_session =
     run [Connect, SockOpen 1, SockMessage 1 (Parsed challenge_frame) ''h3'',
          SockMessage 1 (Parsed (res_ok_frame ''h3'' JNull)) []] closed_session"

section \<open>Properties\<close>

subsection \<open>Evaluating the concrete sessions\<close>

lemmas client_defs =
  run_def step_def connect_def new_client_def new_promise_def cleanup_existing_def
  setTimeout_def clearTimeout_def ws_is_open_def sock_ready_def upd_socket_def ws_close_def
  ws_send_def close_current_def settle_def emit_def handleMessage_def handleLegacy_def
  notify_def truthy_method_def call_def callTimeout_def connect_request_def
  connectionTimeout_def ws_onopen_def ws_onclose_def ws_onerror_def ws_onmessage_def
  scheduleReconnect_def reconnectCallback_def reconnectResume_def disconnect_def
  isConnected_def setAutoReconnect_def

lemmas fixture_defs =
  no_fields_def challenge_frame_def res_ok_frame_def res_error_frame_def event_frame_def
  fresh_client_def

lemma handshaking_eq:
  "handshaking =
     \<lparr> url = ''ws://127.0.0.1:18789'', token = ''secret'', url_parses = True,
       ws = Some 0, reconnectTimer = None, messageId = 0,
       pendingRequests = [IdStr ''h1'' \<mapsto> HandshakeEntry 0],
       connected = False, authenticated = False, connecting = Some 0,
       autoReconnect = True,
       sockets = [\<lparr> sock_url = ''ws://127.0.0.1:18789'', sock_token = Some ''secret'',
                    readyState = OPEN, onopen = Some (0, 0), onclose = Some (0, 0),
                    onerror = Some (0, 0), onmessage = Some (0, 0) \<rparr>],
       timers = [None], promises = [None], reconnectAwait = [],
       sent = [(0, connect_request ''h1'' ''secret'')], emitted = [], console = [] \<rparr>"
  by (simp add: handshaking_def client_defs fixture_defs)

lemma authenticated_session_eq:
  "authenticated_session =
     \<lparr> url = ''ws://127.0.0.1:18789'', token = ''secret'', url_parses = True,
       ws = Some 0, reconnectTimer = None, messageId = 0,
       pendingRequests = Map.empty,
       connected = True, authenticated = True, connecting = None,
       autoReconnect = True,
       sockets = [\<lparr> sock_url = ''ws://127.0.0.1:18789'', sock_token = Some ''secret'',
                    readyState = OPEN, onopen = Some (0, 0), onclose = Some (0, 0),
                    onerror = Some (0, 0), onmessage = Some (0, 0) \<rparr>],
       timers = [None], promises = [Some (Resolved None)], reconnectAwait = [],
       sent = [(0, connect_request ''h1'' ''secret'')],
       emitted = [(''connected'', NoArg)], console = [] \<rparr>"
  unfolding authenticated_session_def handshaking_eq
  by (simp add: client_defs fixture_defs)

lemma calling_eq:
  "calling =
     \<lparr> url = ''ws://127.0.0.1:18789'', token = ''secret'', url_parses = True,
       ws = Some 0, reconnectTimer = None, messageId = 0,
       pendingRequests = [IdStr ''r1'' \<mapsto> CallEntry 1],
       connected = True, authenticated = True, connecting = None,
       autoReconnect = True,
       sockets = [\<lparr> sock_url = ''ws://127.0.0.1:18789'', sock_token = Some ''secret'',
                    readyState = OPEN, onopen = Some (0, 0), onclose = Some (0, 0),
                    onerror = Some (0, 0), onmessage = Some (0, 0) \<rparr>],
       timers = [None, Some (CallTimeout (IdStr ''r1'') ''sessions.list'' 1, 30000)],
       promises = [Some (Resolved None), None], reconnectAwait = [],
       sent = [(0, connect_request ''h1'' ''secret''),
               (0, \<lparr>req_id = ''r1'', req_method = ''sessions.list'', req_params = None\<rparr>)],
       emitted = [(''connected'', NoArg)], console = [] \<rparr>"
  unfolding calling_def authenticated_session_eq
  by (simp add: client_defs fixture_defs)

lemma stale_session_eq:
  "stale_session =
     \<lparr> url = ''ws://127.0.0.1:18789'', token = ''secret'', url_parses = True,
       ws = Some 1, reconnectTimer = None, messageId = 0,
       pendingRequests = Map.empty,
       connected = True, authenticated = True, connecting = Some 1,
       autoReconnect = True,
       sockets = [\<lparr> sock_url = ''ws://127.0.0.1:18789'', sock_token = Some ''secret'',
                    readyState = CLOSING, onopen = None, onclose = None,
                    onerror = None, onmessage = None \<rparr>,
                  \<lparr> sock_url = ''ws://127.0.0.1:18789'', sock_token = Some ''secret'',
                    readyState = CONNECTING, onopen = Some (1, 1), onclose = Some (1, 1),
                    onerror = Some (1, 1), onmessage = Some (1, 1) \<rparr>],
       timers = [None, Some (ConnectionTimeout 1, 10000)],
       promises = [Some (Resolved None), None], reconnectAwait = [],
       sent = [(0, connect_request ''h1'' ''secret''), (0, connect_request ''h2'' ''secret'')],
       emitted = [(''connected'', NoArg)], console = [] \<rparr>"
  unfolding stale_session_def handshaking_eq
  by (simp add: client_defs fixture_defs)


lemma closed_session_eq:
  "closed_session =
     \<lparr> url = ''ws://127.0.0.1:18789'', token = ''secret'', url_parses = True,
       ws = Some 0, reconnectTimer = Some 1, messageId = 0,
       pendingRequests = Map.empty,
       connected = False, authenticated = False, connecting = None,
       autoReconnect = True,
       sockets = [\<lparr> sock_url = ''ws://127.0.0.1:18789'', sock_token = Some ''secret'',
                    readyState = CLOSED, onopen = Some (0, 0), onclose = Some (0, 0),
                    onerror = Some (0, 0), onmessage = Some (0, 0) \<rparr>],
       timers = [None, Some (Reconnect, 10000)],
       promises = [Some (Resolved None)], reconnectAwait = [],
       sent = [(0, connect_request ''h1'' ''secret'')],
       emitted = [(''connected'', NoArg), (''disconnected'', NoArg)], console = [] \<rparr>"
  unfolding closed_session_def authenticated_session_eq
  by (simp add: client_defs fixture_defs)

lemma reconnecting_eq:
  "reconnecting =
     \<lparr> url = ''ws://127.0.0.1:18789'', token = ''secret'', url_parses = True,
       ws = Some 1, reconnectTimer = None, messageId = 0,
       pendingRequests = Map.empty,
       connected = False, authenticated = False, connecting = None,
       autoReconnect = True,
       sockets = [\<lparr> sock_url = ''ws://127.0.0.1:18789'', sock_token = Some ''secret'',
                    readyState = CLOSED, onopen = None, onclose = None,
                    onerror = None, onmessage = None \<rparr>,
                  \<lparr> sock_url = ''ws://127.0.0.1:18789'', sock_token = Some ''secret'',
                    readyState = CONNECTING, onopen = Some (2, 1), onclose = Some (2, 1),
                    onerror = Some (2, 1), onmessage = Some (2, 1) \<rparr>],
       timers = [None, None, None],
       promises = [Some (Resolved None),
                   Some (Rejected (Error ''Failed to connect to OpenClaw Gateway''))],
       reconnectAwait = [1],
       sent = [(0, connect_request ''h1'' ''secret'')],
       emitted = [(''connected'', NoArg), (''disconnected'', NoArg), (''error'', ErrorArg)],
       console = [''[OpenClaw] Attempting reconnect...''] \<rparr>"
  unfolding reconnecting_def closed_session_eq
  by (simp add: client_defs fixture_defs)

lemma second_session_eq:
  "second_session =
     \<lparr> url = ''ws://127.0.0.1:18789'', token = ''secret'', url_parses = True,
       ws = Some 1, reconnectTimer = Some 1, messageId = 0,
       pendingRequests = Map.empty,
       connected = True, authenticated = True, connecting = None,
       autoReconnect = True,
       sockets = [\<lparr> sock_url = ''ws://127.0.0.1:18789'', sock_token = Some ''secret'',
                    readyState = CLOSED, onopen = None, onclose = None,
                    onerror = None, onmessage = None \<rparr>,
                  \<lparr> sock_url = ''ws://127.0.0.1:18789'', sock_token = Some ''secret'',
                    readyState = OPEN, onopen = Some (2, 1), onclose = Some (2, 1),
                    onerror = Some (2, 1), onmessage = Some (2, 1) \<rparr>],
       timers = [None, Some (Reconnect, 10000), None],
       promises = [Some (Resolved None), Some (Resolved None)],
       reconnectAwait = [],
       sent = [(0, connect_request ''h1'' ''secret''), (1, connect_request ''h3'' ''secret'')],
       emitted = [(''connected'', NoArg), (''disconnected'', NoArg), (''connected'', NoArg)],
       console = [] \<rparr>"
  unfolding second_session_def closed_session_eq
  by (simp add: client_defs fixture_defs)

subsection \<open>What the primitives leave alone\<close>

lemma pending_settle [simp]: "pendingRequests (settle p v s) = pendingRequests s"
  by (simp add: settle_def)

lemma pending_emit [simp]: "pendingRequests (emit n a s) = pendingRequests s"
  by (simp add: emit_def)

lemma pending_ws_close [simp]: "pendingRequests (ws_close k s) = pendingRequests s"
  by (simp add: ws_close_def upd_socket_def)

lemma pending_close_current [simp]: "pendingRequests (close_current s) = pendingRequests s"
  by (simp add: close_current_def split: option.split)

lemma pending_entry_resolve [simp]: "pendingRequests (entry_resolve e v s) = pendingRequests s"
  by (cases e) simp_all

lemma pending_entry_reject [simp]: "pendingRequests (entry_reject e m s) = pendingRequests s"
  by (cases e) simp_all

subsection \<open>Calls on a client that is not connected\<close>

text \<open>
  C4. For every method, parameters and generated id: when the client has no socket, or is
  not connected, or is not authenticated, \<open>call\<close> throws the not-connected error and
  returns the client as it was, so nothing is sent and \<open>pendingRequests\<close> is unchanged.
\<close>

theorem call_not_connected:
  assumes "ws s = None \<or> \<not> connected s \<or> \<not> authenticated s"
  shows "call method params uuid s = (Inl (Error ''Not connected to OpenClaw Gateway''), s)
         \<and> sent (snd (call method params uuid s)) = sent s
         \<and> pendingRequests (snd (call method params uuid s)) = pendingRequests s"
  using assms by (auto simp: call_def)

theorem call_not_connected_witness:
  "(ws fresh_client = None \<or> \<not> connected fresh_client \<or> \<not> authenticated fresh_client)
   \<and> call ''sessions.list'' None ''r1'' fresh_client
       = (Inl (Error ''Not connected to OpenClaw Gateway''), fresh_client)"
proof -
  have h: "ws fresh_client = None \<or> \<not> connected fresh_client \<or> \<not> authenticated fresh_client"
    by (simp add: fresh_client_def new_client_def)
  from h call_not_connected [OF h] show ?thesis by blast
qed

subsection \<open>Repeated connect\<close>




subsection \<open>Responses to pending requests\<close>

text \<open>
  C1, as stated, fails: a response with \<open>ok: false\<close> and no \<open>error\<close> object does not
  indicate success, yet the pending call is resolved (with the absent payload), not
  rejected.
\<close>

theorem response_resolves_without_error_counterexample:
  "msg_type (no_fields\<lparr>msg_type := Some ''res'', msg_id := Some (IdStr ''r1''),
                      msg_ok := Some False\<rparr>) = Some ''res''
   \<and> msg_ok (no_fields\<lparr>msg_type := Some ''res'', msg_id := Some (IdStr ''r1''),
                       msg_ok := Some False\<rparr>) = Some False
   \<and> pendingRequests calling (IdStr ''r1'') = Some (CallEntry 1)
   \<and> promises calling ! 1 = None
   \<and> promises (handleMessage
        (no_fields\<lparr>msg_type := Some ''res'', msg_id := Some (IdStr ''r1''), msg_ok := Some False\<rparr>)
        calling) ! 1 = Some (Resolved None)"
  unfolding calling_eq by (simp add: handleMessage_def settle_def no_fields_def)

text \<open>
  C1, amended. When a message of type \<open>res\<close> carries the id of a pending request, that
  entry and no other is removed from \<open>pendingRequests\<close>, and one of its two functions is
  called once: \<open>reject\<close> with exactly the server's error message when \<open>ok\<close> is \<open>false\<close> and an
  \<open>error\<close> object is present, \<open>resolve\<close> with the payload in every other case. For the entry
  of a call whose promise is unsettled, the promise is settled accordingly.
\<close>

theorem response_settles_pending:
  assumes "msg_type d = Some ''res''" and "msg_id d = Some i" and "pendingRequests s i = Some e"
  shows "pendingRequests (handleMessage d s) = (pendingRequests s)(i := None)
    \<and> handleMessage d s =
        (if msg_ok d = Some False \<and> msg_error d \<noteq> None
         then entry_reject e (message (the (msg_error d)))
                (s\<lparr>pendingRequests := (pendingRequests s)(i := None)\<rparr>)
         else entry_resolve e (msg_payload d)
                (s\<lparr>pendingRequests := (pendingRequests s)(i := None)\<rparr>))
    \<and> (\<forall>p. e = CallEntry p \<and> p < length (promises s) \<and> promises s ! p = None \<longrightarrow>
          promises (handleMessage d s) =
            (promises s)[p := Some (if msg_ok d = Some False \<and> msg_error d \<noteq> None
                                    then Rejected (Error (message (the (msg_error d))))
                                    else Resolved (msg_payload d))])"
  using assms by (auto simp: handleMessage_def Let_def settle_def)

theorem response_settles_pending_witness:
  "msg_type (res_error_frame ''r1'' ''boom'') = Some ''res''
   \<and> msg_id (res_error_frame ''r1'' ''boom'') = Some (IdStr ''r1'')
   \<and> pendingRequests calling (IdStr ''r1'') = Some (CallEntry 1)
   \<and> pendingRequests (handleMessage (res_error_frame ''r1'' ''boom'') calling) (IdStr ''r1'') = None
   \<and> promises (handleMessage (res_error_frame ''r1'' ''boom'') calling)
       = [Some (Resolved None), Some (Rejected (Error ''boom''))]"
proof -
  have a: "msg_type (res_error_frame ''r1'' ''boom'') = Some ''res''"
    and b: "msg_id (res_error_frame ''r1'' ''boom'') = Some (IdStr ''r1'')"
    by (simp_all add: res_error_frame_def no_fields_def)
  have c: "pendingRequests calling (IdStr ''r1'') = Some (CallEntry 1)"
    by (simp add: calling_eq)
  have d: "promises calling = [Some (Resolved None), None]"
    by (simp add: calling_eq)
  have e: "msg_ok (res_error_frame ''r1'' ''boom'') = Some False"
    "msg_error (res_error_frame ''r1'' ''boom'') = Some \<lparr>message = ''boom''\<rparr>"
    by (simp_all add: res_error_frame_def no_fields_def)
  from response_settles_pending [OF a b c] a b c d e show ?thesis
    by (simp add: settle_def)
qed

subsection \<open>Disconnect\<close>

text \<open>
  C6, as stated, fails: \<open>disconnect\<close> does not clear \<open>pendingRequests\<close>. The call that was
  pending before \<open>disconnect\<close> is still pending afterwards, its promise unsettled.
\<close>

theorem disconnect_keeps_pending_counterexample:
  "pendingRequests (disconnect calling) (IdStr ''r1'') = Some (CallEntry 1)
   \<and> promises (disconnect calling) ! 1 = None"
  unfolding calling_eq by (simp add: client_defs)

text \<open>
  C6, amended. \<open>disconnect\<close> is a total function of the client (it has no failing branch).
  Afterwards the socket handle is \<open>null\<close>, the socket it referred to has no \<open>onclose\<close> handler
  and is neither open nor connecting, auto-reconnect is off, the reconnect timer is cleared
  and forgotten, both session flags are false and \<open>connecting\<close> is \<open>null\<close>.
  \<open>pendingRequests\<close> and the promises are left as they were.
\<close>

theorem disconnect_clears:
  "ws (disconnect s) = None
   \<and> \<not> autoReconnect (disconnect s)
   \<and> reconnectTimer (disconnect s) = None
   \<and> timers (disconnect s) =
       (case reconnectTimer s of None \<Rightarrow> timers s | Some t \<Rightarrow> (timers s)[t := None])
   \<and> \<not> connected (disconnect s)
   \<and> \<not> authenticated (disconnect s)
   \<and> connecting (disconnect s) = None
   \<and> pendingRequests (disconnect s) = pendingRequests s
   \<and> promises (disconnect s) = promises s
   \<and> (\<forall>k. ws s = Some k \<and> k < length (sockets s) \<longrightarrow>
          onclose (sockets (disconnect s) ! k) = None
          \<and> readyState (sockets (disconnect s) ! k) \<noteq> OPEN
          \<and> readyState (sockets (disconnect s) ! k) \<noteq> CONNECTING)"
  by (auto simp: disconnect_def Let_def clearTimeout_def ws_close_def upd_socket_def sock_ready_def
           split: option.split ready_state.split)

theorem disconnect_clears_witness:
  "ws calling = Some 0 \<and> 0 < length (sockets calling)
   \<and> ws (disconnect calling) = None
   \<and> onclose (sockets (disconnect calling) ! 0) = None
   \<and> readyState (sockets (disconnect calling) ! 0) \<noteq> OPEN
   \<and> pendingRequests (disconnect calling) = pendingRequests calling"
proof -
  have a: "ws calling = Some 0 \<and> 0 < length (sockets calling)"
    by (simp add: calling_eq)
  from a disconnect_clears [of calling] show ?thesis by blast
qed

lemma promises_notify [simp]: "promises (notify d s) = promises s"
  by (simp add: notify_def emit_def)

lemma pending_notify [simp]: "pendingRequests (notify d s) = pendingRequests s"
  by (simp add: notify_def)

subsection \<open>Legacy responses\<close>

text \<open>
  C7, as stated, fails: the legacy branch does not look at the \<open>type\<close> field. An event frame
  (type \<open>event\<close>) that carries the id of a pending call is resolved against
  \<open>pendingRequests\<close>: the entry is removed and the call's promise is resolved with the frame's
  \<open>result\<close>.
\<close>

theorem typed_event_settled_as_legacy_counterexample:
  "msg_type ((event_frame ''tick'')\<lparr>msg_id := Some (IdStr ''r1''), msg_result := Some (JStr ''x'')\<rparr>)
     = Some ''event''
   \<and> pendingRequests calling (IdStr ''r1'') = Some (CallEntry 1)
   \<and> promises calling ! 1 = None
   \<and> pendingRequests
       (handleMessage
          ((event_frame ''tick'')\<lparr>msg_id := Some (IdStr ''r1''), msg_result := Some (JStr ''x'')\<rparr>)
          calling) (IdStr ''r1'') = None
   \<and> promises
       (handleMessage
          ((event_frame ''tick'')\<lparr>msg_id := Some (IdStr ''r1''), msg_result := Some (JStr ''x'')\<rparr>)
          calling) ! 1 = Some (Resolved (Some (JStr ''x'')))"
  unfolding calling_eq
  by (simp add: handleMessage_def handleLegacy_def settle_def event_frame_def no_fields_def)

text \<open>
  C7, amended. The socket's \<open>onmessage\<close> passes every parsed message to \<open>handleMessage\<close>,
  except the \<open>connect.challenge\<close> event. In \<open>handleMessage\<close> typed responses take precedence: a
  message whose id matches a pending request is settled by the typed rule when its type is
  \<open>res\<close>; every other message whose id matches a pending request, whether it carries a type
  or not, is settled by the legacy rule (rejected with the error's message when an \<open>error\<close>
  object is present, resolved with \<open>result\<close> otherwise). A message without an id, or whose id
  matches no pending request, settles nothing: \<open>pendingRequests\<close> and the promises stay as
  they were. The \<open>connect.challenge\<close> event is never resolved against the map, whatever id it
  carries: it files a handshake entry under a newly generated id and settles no promise.
\<close>

theorem legacy_after_typed:
  "(msg_id d = Some i \<and> pendingRequests s i = Some e \<longrightarrow>
      handleMessage d s =
        (if msg_type d = Some ''res''
         then (if msg_ok d = Some False \<and> msg_error d \<noteq> None
               then entry_reject e (message (the (msg_error d)))
                      (s\<lparr>pendingRequests := (pendingRequests s)(i := None)\<rparr>)
               else entry_resolve e (msg_payload d)
                      (s\<lparr>pendingRequests := (pendingRequests s)(i := None)\<rparr>))
         else (case msg_error d of
                 Some er \<Rightarrow> entry_reject e (message er)
                              (s\<lparr>pendingRequests := (pendingRequests s)(i := None)\<rparr>)
               | None \<Rightarrow> entry_resolve e (msg_result d)
                              (s\<lparr>pendingRequests := (pendingRequests s)(i := None)\<rparr>))))
   \<and> ((msg_id d = None \<or> pendingRequests s (the (msg_id d)) = None) \<longrightarrow>
        pendingRequests (handleMessage d s) = pendingRequests s
        \<and> promises (handleMessage d s) = promises s)
   \<and> (\<not> (msg_type d = Some ''event'' \<and> msg_event d = Some ''connect.challenge'') \<longrightarrow>
        ws_onmessage cl (Parsed d) uuid s = handleMessage d s)
   \<and> (msg_type d = Some ''event'' \<and> msg_event d = Some ''connect.challenge'' \<longrightarrow>
        pendingRequests (ws_onmessage cl (Parsed d) uuid s)
          = (pendingRequests s)(IdStr uuid \<mapsto> HandshakeEntry (snd cl))
        \<and> promises (ws_onmessage cl (Parsed d) uuid s) = promises s)"
proof -
  have a: "msg_id d = Some i \<and> pendingRequests s i = Some e \<longrightarrow>
      handleMessage d s =
        (if msg_type d = Some ''res''
         then (if msg_ok d = Some False \<and> msg_error d \<noteq> None
               then entry_reject e (message (the (msg_error d)))
                      (s\<lparr>pendingRequests := (pendingRequests s)(i := None)\<rparr>)
               else entry_resolve e (msg_payload d)
                      (s\<lparr>pendingRequests := (pendingRequests s)(i := None)\<rparr>))
         else (case msg_error d of
                 Some er \<Rightarrow> entry_reject e (message er)
                              (s\<lparr>pendingRequests := (pendingRequests s)(i := None)\<rparr>)
               | None \<Rightarrow> entry_resolve e (msg_result d)
                              (s\<lparr>pendingRequests := (pendingRequests s)(i := None)\<rparr>)))"
    by (auto simp: handleMessage_def handleLegacy_def Let_def split: option.split)
  have b: "(msg_id d = None \<or> pendingRequests s (the (msg_id d)) = None) \<longrightarrow>
        pendingRequests (handleMessage d s) = pendingRequests s
        \<and> promises (handleMessage d s) = promises s"
    by (auto simp: handleMessage_def handleLegacy_def Let_def split: option.split)
  have c: "\<not> (msg_type d = Some ''event'' \<and> msg_event d = Some ''connect.challenge'') \<longrightarrow>
        ws_onmessage cl (Parsed d) uuid s = handleMessage d s"
    by (auto simp: ws_onmessage_def)
  have e: "msg_type d = Some ''event'' \<and> msg_event d = Some ''connect.challenge'' \<longrightarrow>
        pendingRequests (ws_onmessage cl (Parsed d) uuid s)
          = (pendingRequests s)(IdStr uuid \<mapsto> HandshakeEntry (snd cl))
        \<and> promises (ws_onmessage cl (Parsed d) uuid s) = promises s"
    by (auto simp: ws_onmessage_def ws_send_def Let_def split: option.split)
  from a b c e show ?thesis by blast
qed

theorem legacy_after_typed_witness:
  "msg_id (no_fields\<lparr>msg_id := Some (IdStr ''r1''), msg_error := Some \<lparr>message = ''boom''\<rparr>\<rparr>)
      = Some (IdStr ''r1'')
   \<and> pendingRequests calling (IdStr ''r1'') = Some (CallEntry 1)
   \<and> promises (handleMessage
        (no_fields\<lparr>msg_id := Some (IdStr ''r1''), msg_error := Some \<lparr>message = ''boom''\<rparr>\<rparr>)
        calling) = [Some (Resolved None), Some (Rejected (Error ''boom''))]
   \<and> msg_id (event_frame ''tick'') = None
   \<and> pendingRequests (handleMessage (event_frame ''tick'') calling) = pendingRequests calling
   \<and> promises (handleMessage (event_frame ''tick'') calling) = promises calling
   \<and> ws_onmessage (0, 0)
        (Parsed ((event_frame ''tick'')\<lparr>msg_id := Some (IdStr ''r1''),
                                        msg_result := Some (JStr ''x'')\<rparr>)) [] calling
      = handleMessage
          ((event_frame ''tick'')\<lparr>msg_id := Some (IdStr ''r1''), msg_result := Some (JStr ''x'')\<rparr>)
          calling
   \<and> msg_id (challenge_frame\<lparr>msg_id := Some (IdStr ''r1'')\<rparr>) = Some (IdStr ''r1'')
   \<and> pendingRequests
        (ws_onmessage (0, 0) (Parsed (challenge_frame\<lparr>msg_id := Some (IdStr ''r1'')\<rparr>)) ''h9''
           calling) (IdStr ''r1'') = Some (CallEntry 1)
   \<and> promises
        (ws_onmessage (0, 0) (Parsed (challenge_frame\<lparr>msg_id := Some (IdStr ''r1'')\<rparr>)) ''h9''
           calling) = [Some (Resolved None), None]"
proof -
  let ?d = "no_fields\<lparr>msg_id := Some (IdStr ''r1''), msg_error := Some \<lparr>message = ''boom''\<rparr>\<rparr>"
  let ?ev = "(event_frame ''tick'')\<lparr>msg_id := Some (IdStr ''r1''), msg_result := Some (JStr ''x'')\<rparr>"
  let ?ch = "challenge_frame\<lparr>msg_id := Some (IdStr ''r1'')\<rparr>"
  have a: "msg_id ?d = Some (IdStr ''r1'') \<and> pendingRequests calling (IdStr ''r1'') = Some (CallEntry 1)"
    by (simp add: calling_eq)
  have b: "msg_type ?d \<noteq> Some ''res''" "msg_error ?d = Some \<lparr>message = ''boom''\<rparr>"
    by (simp_all add: no_fields_def)
  have c: "promises calling = [Some (Resolved None), None]"
    by (simp add: calling_eq)
  have d: "msg_id (event_frame ''tick'') = None"
    by (simp add: event_frame_def no_fields_def)
  have ev: "\<not> (msg_type ?ev = Some ''event'' \<and> msg_event ?ev = Some ''connect.challenge'')"
    by (simp add: event_frame_def no_fields_def)
  have ch: "msg_type ?ch = Some ''event'' \<and> msg_event ?ch = Some ''connect.challenge''"
    "msg_id ?ch = Some (IdStr ''r1'')"
    by (simp_all add: challenge_frame_def no_fields_def)
  have "promises (handleMessage ?d calling) = [Some (Resolved None), Some (Rejected (Error ''boom''))]"
    using legacy_after_typed [of ?d "IdStr ''r1''" calling "CallEntry 1"] a b c
    by (simp add: settle_def)
  moreover have "pendingRequests (handleMessage (event_frame ''tick'') calling) = pendingRequests calling
    \<and> promises (handleMessage (event_frame ''tick'') calling) = promises calling"
    using legacy_after_typed [of "event_frame ''tick''" "IdStr ''r1''" calling "CallEntry 1"] d
    by blast
  moreover have "ws_onmessage (0, 0) (Parsed ?ev) [] calling = handleMessage ?ev calling"
    using legacy_after_typed [of ?ev "IdStr ''r1''" calling "CallEntry 1" "(0, 0)" "[]"] ev
    by blast
  moreover have "pendingRequests (ws_onmessage (0, 0) (Parsed ?ch) ''h9'' calling) (IdStr ''r1'')
      = Some (CallEntry 1)
    \<and> promises (ws_onmessage (0, 0) (Parsed ?ch) ''h9'' calling) = [Some (Resolved None), None]"
    using legacy_after_typed [of ?ch "IdStr ''r1''" calling "CallEntry 1" "(0, 0)" "''h9''"] ch a c
    by simp
  ultimately show ?thesis using a d ch(2) by blast
qed

subsection \<open>Notifications\<close>

text \<open>
  C8, as stated, fails: the notification branch tests \<open>data.method\<close> only. A typed event
  frame \<open>{"type":"event","event":"tick"}\<close> delivered on the open socket of an authenticated
  session emits nothing.
\<close>

theorem typed_event_not_dispatched_counterexample:
  "msg_type (event_frame ''tick'') = Some ''event''
   \<and> msg_event (event_frame ''tick'') = Some ''tick''
   \<and> msg_id (event_frame ''tick'') = None
   \<and> enabled (SockMessage 0 (Parsed (event_frame ''tick'')) []) authenticated_session
   \<and> onmessage (sockets authenticated_session ! 0) \<noteq> None
   \<and> emitted (step authenticated_session (SockMessage 0 (Parsed (event_frame ''tick'')) []))
       = emitted authenticated_session
   \<and> emitted (handleMessage (event_frame ''tick'') authenticated_session)
       = emitted authenticated_session"
  unfolding authenticated_session_eq
  by (simp add: client_defs event_frame_def no_fields_def)

text \<open>
  C8, amended. Every inbound message that carries a non-empty \<open>method\<close> and whose id is
  absent or matches no pending request is emitted as \<open>notification\<close> with the message, and
  then under its method name with the message's \<open>params\<close>; nothing else changes. A message
  without such a \<open>method\<close> (a typed event frame that has only an \<open>event\<close> name) changes
  nothing. The socket's message handler passes every parsed message to this dispatch, except
  the \<open>connect.challenge\<close> event, which starts the handshake instead.
\<close>

theorem method_messages_dispatched:
  assumes "msg_id d = None \<or> pendingRequests s (the (msg_id d)) = None"
  shows "handleMessage d s =
           (if truthy_method d
            then s\<lparr>emitted := emitted s @
                     [(''notification'', MessageArg d),
                      (the (msg_method d), ParamsArg (msg_params d))]\<rparr>
            else s)
         \<and> (\<not> (msg_type d = Some ''event'' \<and> msg_event d = Some ''connect.challenge'') \<longrightarrow>
              ws_onmessage cl (Parsed d) uuid s = handleMessage d s)"
  using assms
  by (auto simp: ws_onmessage_def handleMessage_def handleLegacy_def notify_def emit_def
        split: option.split)

theorem method_messages_dispatched_witness:
  "msg_id (no_fields\<lparr>msg_method := Some ''chat.message'', msg_params := Some (JStr ''hi'')\<rparr>) = None
   \<and> emitted (handleMessage
         (no_fields\<lparr>msg_method := Some ''chat.message'', msg_params := Some (JStr ''hi'')\<rparr>)
         authenticated_session)
       = [(''connected'', NoArg),
          (''notification'', MessageArg
             (no_fields\<lparr>msg_method := Some ''chat.message'', msg_params := Some (JStr ''hi'')\<rparr>)),
          (''chat.message'', ParamsArg (Some (JStr ''hi'')))]
   \<and> \<not> (msg_type (no_fields\<lparr>msg_method := Some ''chat.message'',
                               msg_params := Some (JStr ''hi'')\<rparr>) = Some ''event''
         \<and> msg_event (no_fields\<lparr>msg_method := Some ''chat.message'',
                                  msg_params := Some (JStr ''hi'')\<rparr>) = Some ''connect.challenge'')
   \<and> ws_onmessage (0, 0)
        (Parsed (no_fields\<lparr>msg_method := Some ''chat.message'', msg_params := Some (JStr ''hi'')\<rparr>))
        [] authenticated_session
       = handleMessage
           (no_fields\<lparr>msg_method := Some ''chat.message'', msg_params := Some (JStr ''hi'')\<rparr>)
           authenticated_session"
proof -
  let ?d = "no_fields\<lparr>msg_method := Some ''chat.message'', msg_params := Some (JStr ''hi'')\<rparr>"
  have a: "msg_id ?d = None" by (simp add: no_fields_def)
  then have b: "msg_id ?d = None \<or> pendingRequests authenticated_session (the (msg_id ?d)) = None"
    by blast
  have c: "truthy_method ?d" "msg_method ?d = Some ''chat.message''" "msg_params ?d = Some (JStr ''hi'')"
    by (simp_all add: truthy_method_def)
  have e: "emitted authenticated_session = [(''connected'', NoArg)]"
    by (simp add: authenticated_session_eq)
  have n: "\<not> (msg_type ?d = Some ''event'' \<and> msg_event ?d = Some ''connect.challenge'')"
    by (simp add: no_fields_def)
  from method_messages_dispatched [OF b, of "(0, 0)" "[]"] a c e n show ?thesis by simp
qed

subsection \<open>Protocol anomalies\<close>

text \<open>
  C9, as stated, fails: a second challenge on the same socket, while the first handshake
  request is still pending, registers a second pending entry and sends a second \<open>connect\<close>
  request.
\<close>

theorem second_challenge_sends_again_counterexample:
  "pendingRequests handshaking (IdStr ''h1'') = Some (HandshakeEntry 0)
   \<and> sent handshaking = [(0, connect_request ''h1'' ''secret'')]
   \<and> enabled (SockMessage 0 (Parsed challenge_frame) ''h2'') handshaking
   \<and> sent (step handshaking (SockMessage 0 (Parsed challenge_frame) ''h2''))
       = [(0, connect_request ''h1'' ''secret''), (0, connect_request ''h2'' ''secret'')]
   \<and> pendingRequests (step handshaking (SockMessage 0 (Parsed challenge_frame) ''h2''))
       (IdStr ''h2'') = Some (HandshakeEntry 0)"
  unfolding handshaking_eq
  by (simp add: step_def ws_onmessage_def ws_send_def sock_ready_def challenge_frame_def
        no_fields_def)

text \<open>
  C9, amended. Every challenge event handled while the current socket is open, a second one
  included, registers a handshake entry under a new id and sends one \<open>connect\<close> request with
  that id on the current socket; nothing else changes. A response of type \<open>res\<close> whose id has
  no pending request is dropped: the client is unchanged, except that a response carrying a
  non-empty \<open>method\<close> is emitted as a notification.
\<close>

theorem protocol_anomalies:
  "(msg_type d = Some ''event'' \<and> msg_event d = Some ''connect.challenge''
      \<and> ws s = Some k \<and> sock_ready s k = Some OPEN \<longrightarrow>
      ws_onmessage cl (Parsed d) uuid s =
        s\<lparr>pendingRequests := (pendingRequests s)(IdStr uuid \<mapsto> HandshakeEntry (snd cl)),
          sent := sent s @ [(k, connect_request uuid (token s))]\<rparr>)
   \<and> (msg_type d = Some ''res'' \<and> msg_id d = Some i \<and> pendingRequests s i = None \<longrightarrow>
        ws_onmessage cl (Parsed d) uuid s = handleMessage d s
        \<and> handleMessage d s =
            (if truthy_method d
             then s\<lparr>emitted := emitted s @
                      [(''notification'', MessageArg d),
                       (the (msg_method d), ParamsArg (msg_params d))]\<rparr>
             else s))"
  by (auto simp: ws_onmessage_def ws_send_def handleMessage_def handleLegacy_def notify_def
        emit_def sock_ready_def)

theorem protocol_anomalies_witness:
  "msg_type challenge_frame = Some ''event'' \<and> msg_event challenge_frame = Some ''connect.challenge''
   \<and> ws handshaking = Some 0 \<and> sock_ready handshaking 0 = Some OPEN
   \<and> ws_onmessage (0, 0) (Parsed challenge_frame) ''h2'' handshaking =
       handshaking\<lparr>pendingRequests :=
                     (pendingRequests handshaking)(IdStr ''h2'' \<mapsto> HandshakeEntry 0),
                   sent := sent handshaking @ [(0, connect_request ''h2'' ''secret'')]\<rparr>
   \<and> msg_type (res_ok_frame ''zz'' JNull) = Some ''res''
   \<and> msg_id (res_ok_frame ''zz'' JNull) = Some (IdStr ''zz'')
   \<and> pendingRequests handshaking (IdStr ''zz'') = None
   \<and> handleMessage (res_ok_frame ''zz'' JNull) handshaking = handshaking"
proof -
  have a: "msg_type challenge_frame = Some ''event'' \<and> msg_event challenge_frame = Some ''connect.challenge''
      \<and> ws handshaking = Some 0 \<and> sock_ready handshaking 0 = Some OPEN"
    by (simp add: handshaking_eq challenge_frame_def no_fields_def sock_ready_def)
  have b: "msg_type (res_ok_frame ''zz'' JNull) = Some ''res''
      \<and> msg_id (res_ok_frame ''zz'' JNull) = Some (IdStr ''zz'')
      \<and> pendingRequests handshaking (IdStr ''zz'') = None"
    by (simp add: handshaking_eq res_ok_frame_def no_fields_def)
  have c: "\<not> truthy_method (res_ok_frame ''zz'' JNull)"
    by (simp add: truthy_method_def res_ok_frame_def no_fields_def)
  have d: "token handshaking = ''secret''"
    by (simp add: handshaking_eq)
  from protocol_anomalies [of challenge_frame handshaking 0 "(0, 0)" "''h2''" "IdStr ''zz''"] a d
  have e: "ws_onmessage (0, 0) (Parsed challenge_frame) ''h2'' handshaking =
       handshaking\<lparr>pendingRequests :=
                     (pendingRequests handshaking)(IdStr ''h2'' \<mapsto> HandshakeEntry 0),
                   sent := sent handshaking @ [(0, connect_request ''h2'' ''secret'')]\<rparr>"
    by simp
  from protocol_anomalies [of "res_ok_frame ''zz'' JNull" handshaking 0 "(0, 0)" "''h2''" "IdStr ''zz''"] b c
  have f: "handleMessage (res_ok_frame ''zz'' JNull) handshaking = handshaking"
    by simp
  from a b e f show ?thesis by blast
qed

subsection \<open>The session flags\<close>

text \<open>What each primitive leaves unchanged.\<close>

lemma settle_frame [simp]:
  "connected (settle p v s) = connected s"
  "authenticated (settle p v s) = authenticated s"
  "autoReconnect (settle p v s) = autoReconnect s"
  "reconnectTimer (settle p v s) = reconnectTimer s"
  "ws (settle p v s) = ws s"
  "timers (settle p v s) = timers s"
  "console (settle p v s) = console s"
  "connecting (settle p v s) = connecting s"
  "sockets (settle p v s) = sockets s"
  "reconnectAwait (settle p v s) = reconnectAwait s"
  by (simp_all add: settle_def split: option.split)

lemma emit_frame [simp]:
  "connected (emit n a s) = connected s"
  "authenticated (emit n a s) = authenticated s"
  "autoReconnect (emit n a s) = autoReconnect s"
  "reconnectTimer (emit n a s) = reconnectTimer s"
  "ws (emit n a s) = ws s"
  "timers (emit n a s) = timers s"
  "console (emit n a s) = console s"
  "connecting (emit n a s) = connecting s"
  "sockets (emit n a s) = sockets s"
  "reconnectAwait (emit n a s) = reconnectAwait s"
  by (simp_all add: emit_def split: option.split)

lemma clearTimeout_frame [simp]:
  "connected (clearTimeout t s) = connected s"
  "authenticated (clearTimeout t s) = authenticated s"
  "autoReconnect (clearTimeout t s) = autoReconnect s"
  "reconnectTimer (clearTimeout t s) = reconnectTimer s"
  "ws (clearTimeout t s) = ws s"
  "console (clearTimeout t s) = console s"
  "connecting (clearTimeout t s) = connecting s"
  "sockets (clearTimeout t s) = sockets s"
  "reconnectAwait (clearTimeout t s) = reconnectAwait s"
  by (simp_all add: clearTimeout_def split: option.split)

lemma upd_socket_frame [simp]:
  "connected (upd_socket k f s) = connected s"
  "authenticated (upd_socket k f s) = authenticated s"
  "autoReconnect (upd_socket k f s) = autoReconnect s"
  "reconnectTimer (upd_socket k f s) = reconnectTimer s"
  "ws (upd_socket k f s) = ws s"
  "timers (upd_socket k f s) = timers s"
  "console (upd_socket k f s) = console s"
  "connecting (upd_socket k f s) = connecting s"
  "reconnectAwait (upd_socket k f s) = reconnectAwait s"
  by (simp_all add: upd_socket_def split: option.split)

lemma ws_close_frame [simp]:
  "connected (ws_close k s) = connected s"
  "authenticated (ws_close k s) = authenticated s"
  "autoReconnect (ws_close k s) = autoReconnect s"
  "reconnectTimer (ws_close k s) = reconnectTimer s"
  "ws (ws_close k s) = ws s"
  "timers (ws_close k s) = timers s"
  "console (ws_close k s) = console s"
  "connecting (ws_close k s) = connecting s"
  "reconnectAwait (ws_close k s) = reconnectAwait s"
  by (simp_all add: ws_close_def upd_socket_def split: option.split)

lemma close_current_frame [simp]:
  "connected (close_current s) = connected s"
  "authenticated (close_current s) = authenticated s"
  "autoReconnect (close_current s) = autoReconnect s"
  "reconnectTimer (close_current s) = reconnectTimer s"
  "ws (close_current s) = ws s"
  "timers (close_current s) = timers s"
  "console (close_current s) = console s"
  "connecting (close_current s) = connecting s"
  "reconnectAwait (close_current s) = reconnectAwait s"
  by (simp_all add: close_current_def ws_close_def upd_socket_def split: option.split)

lemma ws_send_frame [simp]:
  "connected (snd (ws_send k fr s)) = connected s"
  "authenticated (snd (ws_send k fr s)) = authenticated s"
  "autoReconnect (snd (ws_send k fr s)) = autoReconnect s"
  "reconnectTimer (snd (ws_send k fr s)) = reconnectTimer s"
  "ws (snd (ws_send k fr s)) = ws s"
  "timers (snd (ws_send k fr s)) = timers s"
  "console (snd (ws_send k fr s)) = console s"
  "connecting (snd (ws_send k fr s)) = connecting s"
  "sockets (snd (ws_send k fr s)) = sockets s"
  "reconnectAwait (snd (ws_send k fr s)) = reconnectAwait s"
  by (simp_all add: ws_send_def split: option.split)

lemma setTimeout_frame [simp]:
  "connected (snd (setTimeout cb ms s)) = connected s"
  "authenticated (snd (setTimeout cb ms s)) = authenticated s"
  "autoReconnect (snd (setTimeout cb ms s)) = autoReconnect s"
  "reconnectTimer (snd (setTimeout cb ms s)) = reconnectTimer s"
  "ws (snd (setTimeout cb ms s)) = ws s"
  "console (snd (setTimeout cb ms s)) = console s"
  "connecting (snd (setTimeout cb ms s)) = connecting s"
  "sockets (snd (setTimeout cb ms s)) = sockets s"
  "reconnectAwait (snd (setTimeout cb ms s)) = reconnectAwait s"
  by (simp_all add: setTimeout_def split: option.split)

lemma new_promise_frame [simp]:
  "connected (snd (new_promise s)) = connected s"
  "authenticated (snd (new_promise s)) = authenticated s"
  "autoReconnect (snd (new_promise s)) = autoReconnect s"
  "reconnectTimer (snd (new_promise s)) = reconnectTimer s"
  "ws (snd (new_promise s)) = ws s"
  "timers (snd (new_promise s)) = timers s"
  "console (snd (new_promise s)) = console s"
  "connecting (snd (new_promise s)) = connecting s"
  "sockets (snd (new_promise s)) = sockets s"
  "reconnectAwait (snd (new_promise s)) = reconnectAwait s"
  by (simp_all add: new_promise_def split: option.split)

lemma flags_entry_resolve:
  "connected s = authenticated s \<Longrightarrow>
   connected (entry_resolve e v s) = authenticated (entry_resolve e v s)"
  by (cases e) simp_all

lemma flags_entry_reject:
  "connected s = authenticated s \<Longrightarrow>
   connected (entry_reject e m s) = authenticated (entry_reject e m s)"
  by (cases e) simp_all

lemma flags_handleLegacy:
  "connected s = authenticated s \<Longrightarrow>
   connected (handleLegacy d s) = authenticated (handleLegacy d s)"
  by (simp add: handleLegacy_def notify_def Let_def flags_entry_resolve flags_entry_reject
        split: option.split)

lemma flags_handleMessage:
  "connected s = authenticated s \<Longrightarrow>
   connected (handleMessage d s) = authenticated (handleMessage d s)"
  by (simp add: handleMessage_def Let_def flags_handleLegacy flags_entry_resolve
        flags_entry_reject split: option.split)

lemma flags_connect:
  "connected s = authenticated s \<Longrightarrow>
   connected (snd (connect s)) = authenticated (snd (connect s))"
  by (simp add: connect_def cleanup_existing_def new_promise_def setTimeout_def Let_def
        split: option.split)

lemma flags_scheduleReconnect:
  "connected s = authenticated s \<Longrightarrow>
   connected (scheduleReconnect s) = authenticated (scheduleReconnect s)"
  by (simp add: scheduleReconnect_def setTimeout_def)

lemma flags_runTimer:
  "connected s = authenticated s \<Longrightarrow>
   connected (runTimer cb s) = authenticated (runTimer cb s)"
proof (cases cb)
  case (ConnectionTimeout p)
  assume "connected s = authenticated s"
  then show ?thesis using ConnectionTimeout by (simp add: connectionTimeout_def)
next
  case Reconnect
  assume a: "connected s = authenticated s"
  have "connected (snd (connect (s\<lparr>reconnectTimer := None,
            console := console s @ [''[OpenClaw] Attempting reconnect...'']\<rparr>)))
      = authenticated (snd (connect (s\<lparr>reconnectTimer := None,
            console := console s @ [''[OpenClaw] Attempting reconnect...'']\<rparr>)))"
    using a by (intro flags_connect) simp
  then show ?thesis using Reconnect a
    by (simp add: reconnectCallback_def Let_def case_prod_beta split: connect_result.split)
next
  case (CallTimeout i m p)
  assume "connected s = authenticated s"
  then show ?thesis using CallTimeout by (simp add: callTimeout_def)
qed

lemma flags_fire:
  assumes "connected s = authenticated s"
  shows "connected (fire e s) = authenticated (fire e s)"
proof (cases e)
  case Connect
  then show ?thesis using assms by (simp add: flags_connect)
next
  case Disconnect
  then show ?thesis by (simp add: disconnect_def Let_def)
next
  case (SetAutoReconnect b)
  then show ?thesis using assms by (simp add: setAutoReconnect_def Let_def)
next
  case (Call m ps u)
  then show ?thesis using assms
    by (simp add: call_def new_promise_def setTimeout_def ws_send_def Let_def
          split: prod.split option.split)
next
  case (SockOpen k)
  then show ?thesis using assms by (simp add: Let_def ws_onopen_def split: option.split)
next
  case (SockMessage k raw uuid)
  then show ?thesis using assms
    by (simp add: ws_onmessage_def Let_def flags_handleMessage split: option.split inbound.split)
next
  case (SockError k)
  then show ?thesis using assms by (simp add: ws_onerror_def Let_def split: option.split)
next
  case (SockClose k)
  then show ?thesis using assms
    by (simp add: ws_onclose_def Let_def flags_scheduleReconnect split: option.split)
next
  case (TimerFires t)
  then show ?thesis using assms by (simp add: flags_runTimer split: option.split)
next
  case (ReconnectResumes p)
  then show ?thesis using assms
    by (simp add: reconnectResume_def Let_def flags_scheduleReconnect
          split: option.split settlement.split)
qed

lemma flags_run:
  "connected s = authenticated s \<Longrightarrow> connected (run es s) = authenticated (run es s)"
  unfolding run_def
  by (induction es arbitrary: s) (simp_all add: step_def flags_fire)

text \<open>
  C10. After every sequence of events on a new client, \<open>connected\<close> and \<open>authenticated\<close> are
  equal: the handshake's \<open>resolve\<close> sets both, the close handler and \<open>disconnect\<close> clear both,
  and nothing else writes either. Hence \<open>isConnected\<close> is the same as authenticated with an
  open socket.
\<close>

theorem flags_always_equal:
  "connected (run es (new_client u tok b)) = authenticated (run es (new_client u tok b))
   \<and> isConnected (run es (new_client u tok b))
       = (authenticated (run es (new_client u tok b)) \<and> ws_is_open (run es (new_client u tok b)))"
proof -
  have "connected (run es (new_client u tok b)) = authenticated (run es (new_client u tok b))"
    by (rule flags_run) (simp add: new_client_def)
  then show ?thesis by (auto simp: isConnected_def)
qed

theorem flags_always_equal_witness:
  "connected (run [Connect, SockOpen 0, SockMessage 0 (Parsed challenge_frame) ''h1'',
                   SockMessage 0 (Parsed (res_ok_frame ''h1'' JNull)) []]
                (new_client ''ws://127.0.0.1:18789'' ''secret'' True))
   \<and> authenticated (run [Connect, SockOpen 0, SockMessage 0 (Parsed challenge_frame) ''h1'',
                          SockMessage 0 (Parsed (res_ok_frame ''h1'' JNull)) []]
                       (new_client ''ws://127.0.0.1:18789'' ''secret'' True))
   \<and> isConnected (run [Connect, SockOpen 0, SockMessage 0 (Parsed challenge_frame) ''h1'',
                        SockMessage 0 (Parsed (res_ok_frame ''h1'' JNull)) []]
                     (new_client ''ws://127.0.0.1:18789'' ''secret'' True))"
proof -
  let ?s = "run [Connect, SockOpen 0, SockMessage 0 (Parsed challenge_frame) ''h1'',
                 SockMessage 0 (Parsed (res_ok_frame ''h1'' JNull)) []]
              (new_client ''ws://127.0.0.1:18789'' ''secret'' True)"
  have e: "?s = authenticated_session"
    by (simp add: authenticated_session_def handshaking_def fresh_client_def run_def)
  have a: "authenticated ?s" "ws_is_open ?s"
    unfolding e by (simp_all add: authenticated_session_eq ws_is_open_def sock_ready_def)
  from a flags_always_equal
         [of "[Connect, SockOpen 0, SockMessage 0 (Parsed challenge_frame) ''h1'',
               SockMessage 0 (Parsed (res_ok_frame ''h1'' JNull)) []]"
             "''ws://127.0.0.1:18789''" "''secret''" True]
  show ?thesis by blast
qed

subsection \<open>The timers and the handlers along a run\<close>

text \<open>The invariant on the bare view, and how each change of the view preserves it.\<close>

lemma is_reconnect_simps [simp]:
  "is_reconnect None = False"
  "is_reconnect (Some (cb, ms)) = (cb = Reconnect)"
  by (simp_all add: is_reconnect_def split: timer_cb.split)

lemma view_invI:
  assumes "\<And>t. t < length ts \<Longrightarrow> is_reconnect (ts ! t) \<Longrightarrow> rt = Some t"
    and "\<And>t. rt = Some t \<Longrightarrow> t < length ts \<and> ts ! t = Some (Reconnect, 10000) \<and> ar"
    and "\<And>h. h \<in> set hs \<Longrightarrow> hs_ok ts h"
    and "\<And>k. w = Some k \<Longrightarrow> k < length hs \<and> fst (snd (hs ! k)) \<noteq> None"
  shows "view_inv ts rt ar w hs"
  unfolding view_inv_def using assms by blast

lemma view_inv_armed:
  "view_inv ts rt ar w hs \<Longrightarrow> t < length ts \<Longrightarrow> is_reconnect (ts ! t) \<Longrightarrow> rt = Some t"
  unfolding view_inv_def by blast

lemma view_inv_recorded:
  "view_inv ts rt ar w hs \<Longrightarrow> rt = Some t \<Longrightarrow>
   t < length ts \<and> ts ! t = Some (Reconnect, 10000) \<and> ar"
  unfolding view_inv_def by blast

lemma view_inv_handlers:
  "view_inv ts rt ar w hs \<Longrightarrow> h \<in> set hs \<Longrightarrow> hs_ok ts h"
  unfolding view_inv_def by blast

lemma view_inv_current:
  "view_inv ts rt ar w hs \<Longrightarrow> w = Some k \<Longrightarrow> k < length hs \<and> fst (snd (hs ! k)) \<noteq> None"
  unfolding view_inv_def by blast

lemma nth_clear:
  "i < length ts \<Longrightarrow> ts[t := None] ! i = (if i = t then None else ts ! i)"
  by (simp add: nth_list_update)

lemma nth_clear_not_reconnect:
  "\<not> is_reconnect (ts ! i) \<Longrightarrow> \<not> is_reconnect (ts[t := None] ! i)"
  by (cases "t < length ts") (simp_all add: nth_list_update list_update_beyond)

lemma c_ok_clear: "c_ok ts c \<Longrightarrow> c_ok (ts[t := None]) c"
  by (cases c) (simp_all add: c_ok_def nth_clear_not_reconnect)

lemma c_ok_append: "c_ok ts c \<Longrightarrow> c_ok (ts @ [x]) c"
  by (cases c) (simp_all add: c_ok_def nth_append)

lemma hs_ok_clear: "hs_ok ts h \<Longrightarrow> hs_ok (ts[t := None]) h"
  by (cases h) (simp add: hs_ok_def c_ok_clear)

lemma hs_ok_append: "hs_ok ts h \<Longrightarrow> hs_ok (ts @ [x]) h"
  by (cases h) (simp add: hs_ok_def c_ok_append)

lemma view_inv_clear:
  assumes v: "view_inv ts rt ar w hs" and nr: "t < length ts \<Longrightarrow> \<not> is_reconnect (ts ! t)"
  shows "view_inv (ts[t := None]) rt ar w hs"
proof (rule view_invI)
  fix i assume i: "i < length (ts[t := None])" and r: "is_reconnect (ts[t := None] ! i)"
  from i have il: "i < length ts" by simp
  from r il have "i \<noteq> t" by (auto simp: nth_clear)
  with r il have "is_reconnect (ts ! i)" by (simp add: nth_clear)
  with v il show "rt = Some i" by (rule view_inv_armed)
next
  fix i assume "rt = Some i"
  with v have i: "i < length ts \<and> ts ! i = Some (Reconnect, 10000) \<and> ar"
    by (rule view_inv_recorded)
  then have "is_reconnect (ts ! i)" by simp
  with nr i have "i \<noteq> t" by blast
  with i show "i < length (ts[t := None]) \<and> ts[t := None] ! i = Some (Reconnect, 10000) \<and> ar"
    by (simp add: nth_clear)
next
  fix h assume "h \<in> set hs"
  with v have "hs_ok ts h" by (rule view_inv_handlers)
  then show "hs_ok (ts[t := None]) h" by (rule hs_ok_clear)
next
  fix k assume "w = Some k"
  with v show "k < length hs \<and> fst (snd (hs ! k)) \<noteq> None" by (rule view_inv_current)
qed

lemma view_inv_arm:
  assumes v: "view_inv ts rt ar w hs" and cb: "cb \<noteq> Reconnect"
  shows "view_inv (ts @ [Some (cb, ms)]) rt ar w hs"
proof (rule view_invI)
  fix i assume i: "i < length (ts @ [Some (cb, ms)])"
    and r: "is_reconnect ((ts @ [Some (cb, ms)]) ! i)"
  from r cb have "i \<noteq> length ts" by auto
  with i have il: "i < length ts" by simp
  with r have "is_reconnect (ts ! i)" by (simp add: nth_append)
  with v il show "rt = Some i" by (rule view_inv_armed)
next
  fix i assume "rt = Some i"
  with v have "i < length ts \<and> ts ! i = Some (Reconnect, 10000) \<and> ar"
    by (rule view_inv_recorded)
  then show "i < length (ts @ [Some (cb, ms)])
      \<and> (ts @ [Some (cb, ms)]) ! i = Some (Reconnect, 10000) \<and> ar"
    by (simp add: nth_append)
next
  fix h assume "h \<in> set hs"
  with v have "hs_ok ts h" by (rule view_inv_handlers)
  then show "hs_ok (ts @ [Some (cb, ms)]) h" by (rule hs_ok_append)
next
  fix k assume "w = Some k"
  with v show "k < length hs \<and> fst (snd (hs ! k)) \<noteq> None" by (rule view_inv_current)
qed

lemma view_inv_schedule:
  assumes v: "view_inv ts None ar w hs"
  shows "view_inv (ts @ [Some (Reconnect, 10000)]) (Some (length ts)) True w hs"
proof (rule view_invI)
  fix i assume i: "i < length (ts @ [Some (Reconnect, 10000)])"
    and r: "is_reconnect ((ts @ [Some (Reconnect, 10000)]) ! i)"
  show "Some (length ts) = Some i"
  proof (cases "i < length ts")
    case True
    with r have "is_reconnect (ts ! i)" by (simp add: nth_append)
    with v True have "None = Some i" by (rule view_inv_armed)
    then show ?thesis by simp
  next
    case False
    with i show ?thesis by simp
  qed
next
  fix i assume "Some (length ts) = Some i"
  then show "i < length (ts @ [Some (Reconnect, 10000)])
      \<and> (ts @ [Some (Reconnect, 10000)]) ! i = Some (Reconnect, 10000) \<and> True"
    by auto
next
  fix h assume "h \<in> set hs"
  with v have "hs_ok ts h" by (rule view_inv_handlers)
  then show "hs_ok (ts @ [Some (Reconnect, 10000)]) h" by (rule hs_ok_append)
next
  fix k assume "w = Some k"
  with v show "k < length hs \<and> fst (snd (hs ! k)) \<noteq> None" by (rule view_inv_current)
qed

lemma view_inv_unschedule:
  assumes v: "view_inv ts rt ar w hs"
  shows "view_inv (case rt of None \<Rightarrow> ts | Some t \<Rightarrow> ts[t := None]) None ar' w hs"
proof (rule view_invI)
  fix i assume i: "i < length (case rt of None \<Rightarrow> ts | Some t \<Rightarrow> ts[t := None])"
    and r: "is_reconnect ((case rt of None \<Rightarrow> ts | Some t \<Rightarrow> ts[t := None]) ! i)"
  from i have il: "i < length ts" by (cases rt) simp_all
  have "is_reconnect (ts ! i)"
  proof (cases rt)
    case None
    with r show ?thesis by simp
  next
    case (Some t)
    with r il show ?thesis by (simp add: nth_clear split: if_splits)
  qed
  with v il have rt: "rt = Some i" by (rule view_inv_armed)
  with r il have False by (simp add: nth_clear)
  then show "None = Some i" ..
next
  fix i :: nat assume "None = Some i"
  then show "i < length (case rt of None \<Rightarrow> ts | Some t \<Rightarrow> ts[t := None])
      \<and> (case rt of None \<Rightarrow> ts | Some t \<Rightarrow> ts[t := None]) ! i = Some (Reconnect, 10000) \<and> ar'"
    by simp
next
  fix h assume "h \<in> set hs"
  with v have "hs_ok ts h" by (rule view_inv_handlers)
  then show "hs_ok (case rt of None \<Rightarrow> ts | Some t \<Rightarrow> ts[t := None]) h"
    by (cases rt) (simp_all add: hs_ok_clear)
next
  fix k assume "w = Some k"
  with v show "k < length hs \<and> fst (snd (hs ! k)) \<noteq> None" by (rule view_inv_current)
qed

lemma view_inv_auto_on:
  "view_inv ts rt ar w hs \<Longrightarrow> view_inv ts rt True w hs"
  unfolding view_inv_def by blast

lemma view_inv_detach:
  assumes v: "view_inv ts rt ar w hs" and h: "hs_ok ts h"
  shows "view_inv ts rt ar None (hs[k := h])"
proof (rule view_invI)
  fix i assume "i < length ts" and "is_reconnect (ts ! i)"
  with v show "rt = Some i" by (rule view_inv_armed)
next
  fix i assume "rt = Some i"
  with v show "i < length ts \<and> ts ! i = Some (Reconnect, 10000) \<and> ar"
    by (rule view_inv_recorded)
next
  fix x assume "x \<in> set (hs[k := h])"
  with set_update_subset_insert [of hs k h] have "x = h \<or> x \<in> set hs" by blast
  with v h show "hs_ok ts x" by (blast intro: view_inv_handlers)
next
  fix j :: nat assume "None = Some j"
  then show "j < length (hs[k := h]) \<and> fst (snd (hs[k := h] ! j)) \<noteq> None" by simp
qed

lemma view_inv_no_ws:
  "view_inv ts rt ar w hs \<Longrightarrow> view_inv ts rt ar None hs"
  unfolding view_inv_def by blast

lemma view_inv_new_socket:
  assumes "view_inv ts rt ar w hs"
  shows "view_inv (ts @ [Some (ConnectionTimeout p, 10000)]) rt ar (Some (length hs))
           (hs @ [(Some (length ts, p), Some (length ts, p), Some (length ts, p), Some (length ts, p))])"
proof -
  let ?ts = "ts @ [Some (ConnectionTimeout p, 10000)]"
  let ?h = "(Some (length ts, p), Some (length ts, p), Some (length ts, p), Some (length ts, p))"
  have v: "view_inv ?ts rt ar w hs"
    using assms by (rule view_inv_arm) simp
  show ?thesis
  proof (rule view_invI)
    fix i assume "i < length ?ts" and "is_reconnect (?ts ! i)"
    with v show "rt = Some i" by (rule view_inv_armed)
  next
    fix i assume "rt = Some i"
    with v show "i < length ?ts \<and> ?ts ! i = Some (Reconnect, 10000) \<and> ar"
      by (rule view_inv_recorded)
  next
    fix x assume "x \<in> set (hs @ [?h])"
    then have "x = ?h \<or> x \<in> set hs" by auto
    moreover have "hs_ok ?ts ?h" by (simp add: hs_ok_def c_ok_def)
    ultimately show "hs_ok ?ts x" using v by (blast intro: view_inv_handlers)
  next
    fix k assume "Some (length hs) = Some k"
    then show "k < length (hs @ [?h]) \<and> fst (snd ((hs @ [?h]) ! k)) \<noteq> None" by auto
  qed
qed

lemma same_view_refl [simp]: "same_view s s"
  by (simp add: same_view_def)

lemma same_view_trans: "same_view s'' s' \<Longrightarrow> same_view s' s \<Longrightarrow> same_view s'' s"
  by (simp add: same_view_def)

lemma same_view_timer_inv: "same_view s' s \<Longrightarrow> timer_inv s' = timer_inv s"
  by (simp add: same_view_def timer_inv_def)

lemma same_view_quiet: "same_view s' s \<Longrightarrow> quiet s' = quiet s"
  by (simp add: same_view_def quiet_def)

lemma same_view_console: "same_view s' s \<Longrightarrow> console s' = console s"
  by (simp add: same_view_def)

lemma handlers_readyState [simp]: "handlers (w\<lparr>readyState := r\<rparr>) = handlers w"
  by (simp add: handlers_def)

lemma map_handlers_upd_socket:
  "map handlers (sockets (upd_socket k f s)) =
     (if k < length (sockets s)
      then (map handlers (sockets s))[k := handlers (f (sockets s ! k))]
      else map handlers (sockets s))"
  by (simp add: upd_socket_def map_update)

lemma map_handlers_same:
  "k < length xs \<Longrightarrow> handlers y = handlers (xs ! k) \<Longrightarrow>
   (map handlers xs)[k := handlers y] = map handlers xs"
  by (simp add: list_eq_iff_nth_eq nth_list_update)

lemma map_handlers_set_ready [simp]:
  "map handlers (sockets (upd_socket k (\<lambda>w. w\<lparr>readyState := r\<rparr>) s)) = map handlers (sockets s)"
  by (simp add: map_handlers_upd_socket map_handlers_same)

lemma map_handlers_ws_close [simp]:
  "map handlers (sockets (ws_close k s)) = map handlers (sockets s)"
  by (simp add: ws_close_def)

lemma map_handlers_close_current [simp]:
  "map handlers (sockets (close_current s)) = map handlers (sockets s)"
  by (simp add: close_current_def split: option.split)

lemma same_view_settle [simp]: "same_view (settle p v s) s"
  by (simp add: same_view_def)

lemma same_view_emit [simp]: "same_view (emit n a s) s"
  by (simp add: same_view_def)

lemma same_view_close_current [simp]: "same_view (close_current s) s"
  by (simp add: same_view_def)

lemma same_view_ws_send [simp]: "same_view (snd (ws_send k fr s)) s"
  by (simp add: same_view_def)

lemma same_view_set_ready [simp]:
  "same_view (upd_socket k (\<lambda>w. w\<lparr>readyState := r\<rparr>) s) s"
  by (simp add: same_view_def)

lemma same_view_entry_resolve: "same_view (entry_resolve e v s) s"
  by (cases e) (simp_all add: same_view_def)

lemma same_view_entry_reject: "same_view (entry_reject e m s) s"
  by (cases e) (simp_all add: same_view_def)

lemma same_view_pending:
  "same_view s' (s\<lparr>pendingRequests := x\<rparr>) = same_view s' s"
  by (simp add: same_view_def)

lemma same_view_notify: "same_view (notify d s) s"
  by (simp add: notify_def same_view_def)

lemma same_view_handleLegacy: "same_view (handleLegacy d s) s"
proof (cases "msg_id d")
  case None
  then show ?thesis by (simp add: handleLegacy_def same_view_notify)
next
  case (Some i)
  show ?thesis
  proof (cases "pendingRequests s i")
    case None
    with Some show ?thesis by (simp add: handleLegacy_def same_view_notify)
  next
    case (Some e)
    have "same_view (entry_reject e m (s\<lparr>pendingRequests := x\<rparr>)) s" for m x
      using same_view_entry_reject [of e m "s\<lparr>pendingRequests := x\<rparr>"]
      by (simp add: same_view_pending)
    moreover have "same_view (entry_resolve e v (s\<lparr>pendingRequests := x\<rparr>)) s" for v x
      using same_view_entry_resolve [of e v "s\<lparr>pendingRequests := x\<rparr>"]
      by (simp add: same_view_pending)
    ultimately show ?thesis using Some \<open>msg_id d = Some i\<close>
      by (simp add: handleLegacy_def Let_def split: option.split)
  qed
qed

lemma same_view_handleMessage: "same_view (handleMessage d s) s"
proof -
  have a: "same_view (entry_reject e m (s\<lparr>pendingRequests := x\<rparr>)) s" for e m x
    using same_view_entry_reject [of e m "s\<lparr>pendingRequests := x\<rparr>"]
    by (simp add: same_view_pending)
  have b: "same_view (entry_resolve e v (s\<lparr>pendingRequests := x\<rparr>)) s" for e v x
    using same_view_entry_resolve [of e v "s\<lparr>pendingRequests := x\<rparr>"]
    by (simp add: same_view_pending)
  show ?thesis
    by (simp add: handleMessage_def Let_def a b same_view_handleLegacy split: option.split)
qed

lemma same_view_callTimeout: "same_view (callTimeout i m p s) s"
  by (simp add: callTimeout_def same_view_def)

lemma same_view_connectionTimeout: "same_view (connectionTimeout p s) s"
  by (simp add: connectionTimeout_def same_view_def)

lemma same_view_ws_onmessage: "same_view (ws_onmessage cl raw uuid s) s"
proof (cases raw)
  case Unparsable
  then show ?thesis by (simp add: ws_onmessage_def)
next
  case (Parsed d)
  have "same_view (snd (ws_send k fr (s\<lparr>pendingRequests := x\<rparr>))) s" for k fr x
    by (simp add: same_view_def)
  moreover have "same_view (s\<lparr>pendingRequests := x\<rparr>) s" for x
    by (simp add: same_view_def)
  ultimately show ?thesis using Parsed
    by (simp add: ws_onmessage_def Let_def same_view_handleMessage split: option.split)
qed

lemma timers_clearTimeout [simp]: "timers (clearTimeout t s) = (timers s)[t := None]"
  by (simp add: clearTimeout_def)

lemma map_handlers_clearTimeout [simp]:
  "map handlers (sockets (clearTimeout t s)) = map handlers (sockets s)"
  by simp

lemma timer_inv_clearTimeout:
  assumes "timer_inv s" and "t < length (timers s) \<Longrightarrow> \<not> is_reconnect (timers s ! t)"
  shows "timer_inv (clearTimeout t s)"
  using assms by (simp add: timer_inv_def view_inv_clear)

lemma timer_inv_socket:
  assumes "timer_inv s" and "k < length (sockets s)"
  shows "hs_ok (timers s) (handlers (sockets s ! k))"
proof -
  from assms(2) have "handlers (sockets s ! k) \<in> set (map handlers (sockets s))"
    by simp
  with assms(1) show ?thesis unfolding timer_inv_def by (rule view_inv_handlers)
qed

lemma timer_inv_closure:
  assumes "timer_inv s" and "k < length (sockets s)"
    and "onopen (sockets s ! k) = Some cl \<or> onclose (sockets s ! k) = Some cl
         \<or> onerror (sockets s ! k) = Some cl \<or> onmessage (sockets s ! k) = Some cl"
  shows "fst cl < length (timers s) \<and> \<not> is_reconnect (timers s ! fst cl)"
  using timer_inv_socket [OF assms(1,2)] assms(3)
  by (auto simp: hs_ok_def handlers_def c_ok_def)

lemma timer_inv_scheduleReconnect:
  assumes "timer_inv s"
  shows "timer_inv (scheduleReconnect s)"
proof (cases "reconnectTimer s \<noteq> None \<or> \<not> autoReconnect s")
  case True
  then show ?thesis using assms by (simp add: scheduleReconnect_def)
next
  case False
  then have n: "reconnectTimer s = None" and a: "autoReconnect s" by simp_all
  from assms n have "view_inv (timers s) None (autoReconnect s) (ws s) (map handlers (sockets s))"
    by (simp add: timer_inv_def)
  then have "view_inv (timers s @ [Some (Reconnect, 10000)]) (Some (length (timers s))) True
      (ws s) (map handlers (sockets s))"
    by (rule view_inv_schedule)
  with n a show ?thesis
    by (simp add: scheduleReconnect_def setTimeout_def timer_inv_def)
qed

lemma timer_inv_ws_onopen:
  assumes "timer_inv s" and "fst cl < length (timers s) \<Longrightarrow> \<not> is_reconnect (timers s ! fst cl)"
  shows "timer_inv (ws_onopen cl s)"
  unfolding ws_onopen_def using assms by (rule timer_inv_clearTimeout)

lemma timer_inv_ws_onerror:
  assumes "timer_inv s" and "fst cl < length (timers s) \<Longrightarrow> \<not> is_reconnect (timers s ! fst cl)"
  shows "timer_inv (ws_onerror cl s)"
proof -
  have c: "timer_inv (clearTimeout (fst cl) s)"
    using assms by (rule timer_inv_clearTimeout)
  have "same_view (ws_onerror cl s) (clearTimeout (fst cl) s)"
    by (simp add: ws_onerror_def Let_def same_view_def)
  with c show ?thesis by (simp add: same_view_timer_inv)
qed

lemma timer_inv_ws_onclose:
  assumes "timer_inv s" and "fst cl < length (timers s) \<Longrightarrow> \<not> is_reconnect (timers s ! fst cl)"
  shows "timer_inv (ws_onclose cl s)"
proof -
  let ?s3 = "emit ''disconnected'' NoArg
      ((clearTimeout (fst cl) s)\<lparr>connected := False, authenticated := False, connecting := None\<rparr>)"
  have c: "timer_inv (clearTimeout (fst cl) s)"
    using assms by (rule timer_inv_clearTimeout)
  have "same_view ?s3 (clearTimeout (fst cl) s)"
    by (simp add: same_view_def)
  with c have s3: "timer_inv ?s3" by (simp add: same_view_timer_inv)
  then have "timer_inv (scheduleReconnect ?s3)" by (rule timer_inv_scheduleReconnect)
  with s3 show ?thesis by (simp add: ws_onclose_def Let_def)
qed

lemma timer_inv_call:
  assumes "timer_inv s"
  shows "timer_inv (snd (call method params uuid s))"
proof (cases "ws s = None \<or> \<not> connected s \<or> \<not> authenticated s")
  case True
  then show ?thesis using assms by (auto simp: call_def)
next
  case False
  let ?s3 = "s\<lparr>promises := promises s @ [None],
               pendingRequests := (pendingRequests s)(IdStr uuid \<mapsto> CallEntry (length (promises s))),
               timers := timers s @ [Some (CallTimeout (IdStr uuid) method (length (promises s)), 30000)]\<rparr>"
  have "view_inv (timers s @ [Some (CallTimeout (IdStr uuid) method (length (promises s)), 30000)])
      (reconnectTimer s) (autoReconnect s) (ws s) (map handlers (sockets s))"
    using assms unfolding timer_inv_def by (rule view_inv_arm) simp
  then have s3: "timer_inv ?s3" by (simp add: timer_inv_def)
  have "same_view (snd (call method params uuid s)) ?s3"
    using False
    by (simp add: call_def new_promise_def setTimeout_def Let_def case_prod_beta same_view_def
          split: option.split)
  with s3 show ?thesis by (simp add: same_view_timer_inv)
qed

lemma cleanup_existing_frame [simp]:
  "timers (cleanup_existing s) = timers s"
  "reconnectTimer (cleanup_existing s) = reconnectTimer s"
  "autoReconnect (cleanup_existing s) = autoReconnect s"
  "connected (cleanup_existing s) = connected s"
  "authenticated (cleanup_existing s) = authenticated s"
  "console (cleanup_existing s) = console s"
  "url_parses (cleanup_existing s) = url_parses s"
  "ws (cleanup_existing s) = None"
  "length (sockets (cleanup_existing s)) = length (sockets s)"
  by (simp_all add: cleanup_existing_def ws_close_def upd_socket_def split: option.split)

lemma timer_inv_cleanup_existing:
  assumes "timer_inv s"
  shows "timer_inv (cleanup_existing s)"
proof (cases "ws s")
  case None
  then show ?thesis using assms by (simp add: cleanup_existing_def)
next
  case (Some k)
  let ?f = "\<lambda>w. w\<lparr>onopen := None, onclose := None, onerror := None, onmessage := None\<rparr>"
  from assms Some have k: "k < length (sockets s)"
    unfolding timer_inv_def by (auto dest: view_inv_current)
  have h: "hs_ok (timers s) (None, None, None, None)"
    by (simp add: hs_ok_def c_ok_def)
  have "view_inv (timers s) (reconnectTimer s) (autoReconnect s) None
      ((map handlers (sockets s))[k := (None, None, None, None)])"
    using assms h unfolding timer_inv_def by (rule view_inv_detach)
  moreover have "map handlers (sockets (ws_close k (upd_socket k ?f s)))
      = (map handlers (sockets s))[k := (None, None, None, None)]"
    using k by (simp add: map_handlers_upd_socket handlers_def)
  ultimately show ?thesis using Some
    by (simp add: cleanup_existing_def timer_inv_def)
qed

lemma timer_inv_connect:
  assumes "timer_inv s"
  shows "timer_inv (snd (connect s))"
proof (cases "(connected s \<and> ws_is_open s) \<or> connecting s \<noteq> None")
  case True
  then show ?thesis using assms by (auto simp: connect_def)
next
  case False
  then have nc: "(connected s \<and> ws_is_open s) = False" and cn: "connecting s = None"
    by auto
  let ?s1 = "snd (new_promise s)"
  let ?s2 = "cleanup_existing ?s1"
  let ?p = "length (promises s)"
  have "same_view ?s1 s" by (simp add: same_view_def)
  with assms have "timer_inv ?s1" by (simp add: same_view_timer_inv)
  then have s2: "timer_inv ?s2" by (rule timer_inv_cleanup_existing)
  show ?thesis
  proof (cases "url_parses s")
    case False
    have "same_view ((settle ?p (Rejected TypeError) ?s2)\<lparr>connecting := Some ?p\<rparr>) ?s2"
      by (simp add: same_view_def)
    with s2 have "timer_inv ((settle ?p (Rejected TypeError) ?s2)\<lparr>connecting := Some ?p\<rparr>)"
      by (simp add: same_view_timer_inv)
    with False show ?thesis
      by (simp add: connect_def nc cn Let_def case_prod_beta new_promise_def)
  next
    case True
    have "view_inv (timers ?s2 @ [Some (ConnectionTimeout ?p, 10000)]) (reconnectTimer ?s2)
        (autoReconnect ?s2) (Some (length (map handlers (sockets ?s2))))
        (map handlers (sockets ?s2) @
           [(Some (length (timers ?s2), ?p), Some (length (timers ?s2), ?p),
             Some (length (timers ?s2), ?p), Some (length (timers ?s2), ?p))])"
      using s2 unfolding timer_inv_def by (rule view_inv_new_socket)
    with True show ?thesis
      by (simp add: connect_def nc cn Let_def case_prod_beta new_promise_def setTimeout_def
            timer_inv_def handlers_def)
  qed
qed

lemma timer_inv_disconnect:
  assumes "timer_inv s"
  shows "timer_inv (disconnect s)"
proof -
  let ?ts = "case reconnectTimer s of None \<Rightarrow> timers s | Some t \<Rightarrow> (timers s)[t := None]"
  let ?hs = "map handlers (sockets s)"
  have v: "view_inv ?ts None False (ws s) ?hs"
    using assms unfolding timer_inv_def by (rule view_inv_unschedule)
  let ?s2 = "case reconnectTimer (s\<lparr>autoReconnect := False\<rparr>) of
               Some t \<Rightarrow> (clearTimeout t (s\<lparr>autoReconnect := False\<rparr>))\<lparr>reconnectTimer := None\<rparr>
             | None \<Rightarrow> s\<lparr>autoReconnect := False\<rparr>"
  have s2: "timers ?s2 = ?ts" "reconnectTimer ?s2 = None" "autoReconnect ?s2 = False"
    "ws ?s2 = ws s" "sockets ?s2 = sockets s"
    by (simp_all split: option.split)
  show ?thesis
  proof (cases "ws s")
    case None
    with v s2 show ?thesis
      by (simp add: disconnect_def Let_def timer_inv_def)
  next
    case (Some k)
    from assms Some have k: "k < length (sockets s)"
      unfolding timer_inv_def by (auto dest: view_inv_current)
    let ?h = "handlers ((sockets s ! k)\<lparr>onclose := None\<rparr>)"
    from k have "handlers (sockets s ! k) \<in> set ?hs" by simp
    with v have "hs_ok ?ts (handlers (sockets s ! k))" by (rule view_inv_handlers)
    then have "hs_ok ?ts ?h" by (simp add: hs_ok_def handlers_def c_ok_def)
    with v have "view_inv ?ts None False None (?hs[k := ?h])" by (rule view_inv_detach)
    moreover have "map handlers (sockets (ws_close k (upd_socket k (\<lambda>w. w\<lparr>onclose := None\<rparr>) ?s2)))
        = ?hs[k := ?h]"
      using k s2 by (simp add: map_handlers_upd_socket)
    ultimately show ?thesis using Some s2
      by (simp add: disconnect_def Let_def timer_inv_def)
  qed
qed

lemma timer_inv_setAutoReconnect:
  assumes "timer_inv s"
  shows "timer_inv (setAutoReconnect b s)"
proof (cases b)
  case True
  have "view_inv (timers s) (reconnectTimer s) True (ws s) (map handlers (sockets s))"
    using assms unfolding timer_inv_def by (rule view_inv_auto_on)
  with True show ?thesis by (simp add: setAutoReconnect_def Let_def timer_inv_def)
next
  case False
  have "view_inv (case reconnectTimer s of None \<Rightarrow> timers s | Some t \<Rightarrow> (timers s)[t := None])
      None False (ws s) (map handlers (sockets s))"
    using assms unfolding timer_inv_def by (rule view_inv_unschedule)
  with False show ?thesis
    by (cases "reconnectTimer s") (simp_all add: setAutoReconnect_def Let_def timer_inv_def)
qed

lemma timer_inv_reconnectResume:
  assumes "timer_inv s"
  shows "timer_inv (reconnectResume p s)"
proof -
  let ?s1 = "s\<lparr>reconnectAwait := remove1 p (reconnectAwait s)\<rparr>"
  have "same_view ?s1 s" by (simp add: same_view_def)
  with assms have s1: "timer_inv ?s1" by (simp add: same_view_timer_inv)
  then have "timer_inv (scheduleReconnect ?s1)" by (rule timer_inv_scheduleReconnect)
  with s1 show ?thesis
    by (simp add: reconnectResume_def Let_def split: option.split settlement.split)
qed

lemma timer_inv_reconnectCallback:
  assumes "timer_inv (s\<lparr>reconnectTimer := None\<rparr>)"
  shows "timer_inv (reconnectCallback s)"
proof -
  let ?s1 = "s\<lparr>reconnectTimer := None\<rparr>"
  let ?s2 = "?s1\<lparr>console := console ?s1 @ [''[OpenClaw] Attempting reconnect...'']\<rparr>"
  have "timer_inv ?s2 = timer_inv ?s1" by (simp add: timer_inv_def)
  with assms have "timer_inv ?s2" by simp
  then have c: "timer_inv (snd (connect ?s2))" by (rule timer_inv_connect)
  have "timer_inv ((snd (connect ?s2))\<lparr>reconnectAwait := x\<rparr>)" for x
    using c by (simp add: timer_inv_def)
  with c assms show ?thesis
    by (simp add: reconnectCallback_def Let_def case_prod_beta split: connect_result.split)
qed

lemma timer_inv_fire_timer:
  assumes inv: "timer_inv s" and t: "t < length (timers s)" and cb: "timers s ! t = Some (cb, ms)"
  shows "timer_inv (runTimer cb (s\<lparr>timers := (timers s)[t := None]\<rparr>))"
proof (cases "cb = Reconnect")
  case True
  with t cb have "is_reconnect (timers s ! t)" by simp
  with inv t have rt: "reconnectTimer s = Some t"
    unfolding timer_inv_def by (rule view_inv_armed)
  have "view_inv (case reconnectTimer s of None \<Rightarrow> timers s | Some t \<Rightarrow> (timers s)[t := None])
      None (autoReconnect s) (ws s) (map handlers (sockets s))"
    using inv unfolding timer_inv_def by (rule view_inv_unschedule)
  with rt have "timer_inv (s\<lparr>timers := (timers s)[t := None], reconnectTimer := None\<rparr>)"
    by (simp add: timer_inv_def)
  then have "timer_inv (reconnectCallback (s\<lparr>timers := (timers s)[t := None]\<rparr>))"
    by (intro timer_inv_reconnectCallback) simp
  with True show ?thesis by simp
next
  case False
  with cb have "\<not> is_reconnect (timers s ! t)" by simp
  with inv have "timer_inv (clearTimeout t s)" by (intro timer_inv_clearTimeout)
  then have c: "timer_inv (s\<lparr>timers := (timers s)[t := None]\<rparr>)"
    by (simp add: clearTimeout_def)
  from False show ?thesis
  proof (cases cb)
    case (ConnectionTimeout p)
    with c show ?thesis
      using same_view_timer_inv [OF same_view_connectionTimeout] by simp
  next
    case Reconnect
    with False show ?thesis by simp
  next
    case (CallTimeout i m p)
    with c show ?thesis
      using same_view_timer_inv [OF same_view_callTimeout] by simp
  qed
qed

lemma timer_inv_fire:
  assumes inv: "timer_inv s" and en: "enabled e s"
  shows "timer_inv (fire e s)"
proof (cases e)
  case Connect
  then show ?thesis using inv by (simp add: timer_inv_connect)
next
  case Disconnect
  then show ?thesis using inv by (simp add: timer_inv_disconnect)
next
  case (SetAutoReconnect b)
  then show ?thesis using inv by (simp add: timer_inv_setAutoReconnect)
next
  case (Call m ps u)
  then show ?thesis using inv by (simp add: timer_inv_call)
next
  case (SockOpen k)
  let ?s1 = "upd_socket k (\<lambda>w. w\<lparr>readyState := OPEN\<rparr>) s"
  from en SockOpen have k: "k < length (sockets s)"
    by (simp add: sock_ready_def split: if_splits)
  have s1: "timer_inv ?s1"
    using inv same_view_timer_inv [OF same_view_set_ready, of k _ s] by simp
  have k1: "k < length (sockets ?s1)" using k by (simp add: upd_socket_def)
  show ?thesis
  proof (cases "onopen (sockets ?s1 ! k)")
    case None
    with SockOpen s1 show ?thesis by (simp add: Let_def)
  next
    case (Some cl)
    with s1 k1 have "fst cl < length (timers ?s1) \<and> \<not> is_reconnect (timers ?s1 ! fst cl)"
      by (intro timer_inv_closure) auto
    with s1 have "timer_inv (ws_onopen cl ?s1)" by (intro timer_inv_ws_onopen) auto
    with SockOpen Some show ?thesis by (simp add: Let_def)
  qed
next
  case (SockMessage k raw uuid)
  then show ?thesis using inv
    by (simp add: same_view_timer_inv [OF same_view_ws_onmessage] split: option.split)
next
  case (SockError k)
  from en SockError have k: "k < length (sockets s)"
    by (auto simp: sock_ready_def split: if_splits)
  show ?thesis
  proof (cases "onerror (sockets s ! k)")
    case None
    with SockError inv show ?thesis by simp
  next
    case (Some cl)
    with inv k have "fst cl < length (timers s) \<and> \<not> is_reconnect (timers s ! fst cl)"
      by (intro timer_inv_closure) auto
    with inv have "timer_inv (ws_onerror cl s)" by (intro timer_inv_ws_onerror) auto
    with SockError Some show ?thesis by simp
  qed
next
  case (SockClose k)
  let ?s1 = "upd_socket k (\<lambda>w. w\<lparr>readyState := CLOSED\<rparr>) s"
  from en SockClose have k: "k < length (sockets s)"
    by (auto simp: sock_ready_def split: if_splits)
  have s1: "timer_inv ?s1"
    using inv same_view_timer_inv [OF same_view_set_ready, of k _ s] by simp
  have k1: "k < length (sockets ?s1)" using k by (simp add: upd_socket_def)
  show ?thesis
  proof (cases "onclose (sockets ?s1 ! k)")
    case None
    with SockClose s1 show ?thesis by (simp add: Let_def)
  next
    case (Some cl)
    with s1 k1 have "fst cl < length (timers ?s1) \<and> \<not> is_reconnect (timers ?s1 ! fst cl)"
      by (intro timer_inv_closure) auto
    with s1 have "timer_inv (ws_onclose cl ?s1)" by (intro timer_inv_ws_onclose) auto
    with SockClose Some show ?thesis by (simp add: Let_def)
  qed
next
  case (TimerFires t)
  with en have t: "t < length (timers s)" and ne: "timers s ! t \<noteq> None" by simp_all
  then obtain cb ms where cb: "timers s ! t = Some (cb, ms)" by (cases "timers s ! t") auto
  with inv t have "timer_inv (runTimer cb (s\<lparr>timers := (timers s)[t := None]\<rparr>))"
    by (intro timer_inv_fire_timer)
  with TimerFires cb show ?thesis by simp
next
  case (ReconnectResumes p)
  then show ?thesis using inv by (simp add: timer_inv_reconnectResume)
qed

lemma timer_inv_run: "timer_inv s \<Longrightarrow> timer_inv (run es s)"
  unfolding run_def
  by (induction es arbitrary: s) (simp_all add: step_def timer_inv_fire)

lemma timer_inv_new_client: "timer_inv (new_client u tok b)"
  by (simp add: timer_inv_def new_client_def view_inv_def)

lemma calm_refl [simp]: "calm s s"
  by (simp add: calm_def)

lemma calm_trans: "calm s'' s' \<Longrightarrow> calm s' s \<Longrightarrow> calm s'' s"
  by (auto simp: calm_def)

lemma same_view_calm: "same_view s' s \<Longrightarrow> calm s' s"
  by (simp add: same_view_def calm_def)

lemma calm_quiet: "calm s' s \<Longrightarrow> quiet s \<Longrightarrow> quiet s' \<and> console s' = console s"
  by (auto simp: calm_def quiet_def)

lemma set_clear: "x \<in> set (ts[t := None]) \<Longrightarrow> x \<in> set ts \<or> x = None"
  using set_update_subset_insert [of ts t None] by blast

lemma calm_clearTimeout: "calm (clearTimeout t s) s"
  unfolding calm_def by (auto dest: set_clear)

lemma calm_clear_slot: "calm (s\<lparr>timers := (timers s)[t := None]\<rparr>) s"
  unfolding calm_def by (auto dest: set_clear)

lemma calm_ws_onopen: "calm (ws_onopen cl s) s"
  by (simp add: ws_onopen_def calm_clearTimeout)

lemma calm_ws_onerror: "calm (ws_onerror cl s) s"
proof -
  have "same_view (ws_onerror cl s) (clearTimeout (fst cl) s)"
    by (simp add: ws_onerror_def Let_def same_view_def)
  then have "calm (ws_onerror cl s) (clearTimeout (fst cl) s)" by (rule same_view_calm)
  then show ?thesis using calm_clearTimeout by (rule calm_trans)
qed

lemma scheduleReconnect_off: "\<not> autoReconnect s \<Longrightarrow> scheduleReconnect s = s"
  by (simp add: scheduleReconnect_def)

lemma calm_ws_onclose:
  assumes "\<not> autoReconnect s"
  shows "calm (ws_onclose cl s) s"
proof -
  let ?s3 = "emit ''disconnected'' NoArg
      ((clearTimeout (fst cl) s)\<lparr>connected := False, authenticated := False, connecting := None\<rparr>)"
  have e: "ws_onclose cl s = ?s3"
    using assms by (simp add: ws_onclose_def Let_def)
  have "same_view ?s3 (clearTimeout (fst cl) s)" by (simp add: same_view_def)
  then have "calm ?s3 (clearTimeout (fst cl) s)" by (rule same_view_calm)
  then have "calm ?s3 s" using calm_clearTimeout by (rule calm_trans)
  with e show ?thesis by simp
qed

lemma calm_call: "calm (snd (call method params uuid s)) s"
proof (cases "ws s = None \<or> \<not> connected s \<or> \<not> authenticated s")
  case True
  then show ?thesis by (auto simp: call_def)
next
  case False
  then show ?thesis
    by (auto simp: call_def new_promise_def setTimeout_def Let_def case_prod_beta calm_def
          split: option.split)
qed

lemma calm_connect: "calm (snd (connect s)) s"
proof (cases "(connected s \<and> ws_is_open s) \<or> connecting s \<noteq> None")
  case True
  then show ?thesis by (auto simp: connect_def)
next
  case False
  then have nc: "(connected s \<and> ws_is_open s) = False" and cn: "connecting s = None"
    by auto
  show ?thesis
    by (auto simp: connect_def nc cn Let_def case_prod_beta new_promise_def setTimeout_def
          calm_def)
qed

lemma calm_disconnect:
  assumes "\<not> autoReconnect s"
  shows "calm (disconnect s) s"
proof -
  have "timers (disconnect s) =
      (case reconnectTimer s of None \<Rightarrow> timers s | Some t \<Rightarrow> (timers s)[t := None])"
    "autoReconnect (disconnect s) = False" "console (disconnect s) = console s"
    by (simp_all add: disconnect_def Let_def split: option.split)
  with assms show ?thesis
    unfolding calm_def by (cases "reconnectTimer s") (auto dest: set_clear)
qed

lemma calm_setAutoReconnect_off:
  assumes "\<not> autoReconnect s"
  shows "calm (setAutoReconnect False s) s"
  using assms unfolding calm_def
  by (cases "reconnectTimer s") (auto simp: setAutoReconnect_def Let_def dest: set_clear)

lemma calm_reconnectResume:
  assumes "\<not> autoReconnect s"
  shows "calm (reconnectResume p s) s"
  using assms
  by (simp add: reconnectResume_def Let_def scheduleReconnect_off calm_def
        split: option.split settlement.split)

lemma calm_fire:
  assumes q: "quiet s" and en: "enabled e s" and ne: "e \<noteq> SetAutoReconnect True"
  shows "calm (fire e s) s"
proof (cases e)
  case Connect
  then show ?thesis by (simp add: calm_connect)
next
  case Disconnect
  then show ?thesis using q by (simp add: calm_disconnect quiet_def)
next
  case (SetAutoReconnect b)
  with ne have "b = False" by simp
  with SetAutoReconnect show ?thesis using q by (simp add: calm_setAutoReconnect_off quiet_def)
next
  case (Call m ps u)
  then show ?thesis by (simp add: calm_call)
next
  case (SockOpen k)
  let ?s1 = "upd_socket k (\<lambda>w. w\<lparr>readyState := OPEN\<rparr>) s"
  have s1: "calm ?s1 s" by (rule same_view_calm) simp
  have "calm (ws_onopen cl ?s1) s" for cl
    using calm_ws_onopen s1 by (rule calm_trans)
  with s1 SockOpen show ?thesis by (simp add: Let_def split: option.split)
next
  case (SockMessage k raw uuid)
  have "calm (ws_onmessage cl raw uuid s) s" for cl
    using same_view_ws_onmessage by (rule same_view_calm)
  with SockMessage show ?thesis by (simp split: option.split)
next
  case (SockError k)
  then show ?thesis by (simp add: calm_ws_onerror split: option.split)
next
  case (SockClose k)
  let ?s1 = "upd_socket k (\<lambda>w. w\<lparr>readyState := CLOSED\<rparr>) s"
  have s1: "calm ?s1 s" by (rule same_view_calm) simp
  from q have "\<not> autoReconnect ?s1" by (simp add: quiet_def)
  then have "calm (ws_onclose cl ?s1) ?s1" for cl by (rule calm_ws_onclose)
  then have "calm (ws_onclose cl ?s1) s" for cl using s1 by (rule calm_trans)
  with s1 SockClose show ?thesis by (simp add: Let_def split: option.split)
next
  case (TimerFires t)
  with en have t: "t < length (timers s)" and "timers s ! t \<noteq> None" by simp_all
  then obtain cb ms where cb: "timers s ! t = Some (cb, ms)" by (cases "timers s ! t") auto
  from t have "timers s ! t \<in> set (timers s)" by simp
  with q cb have nr: "cb \<noteq> Reconnect" by (auto simp: quiet_def)
  let ?s1 = "s\<lparr>timers := (timers s)[t := None]\<rparr>"
  have s1: "calm ?s1 s" by (rule calm_clear_slot)
  have "calm (runTimer cb ?s1) ?s1"
  proof (cases cb)
    case (ConnectionTimeout p)
    then show ?thesis
      using same_view_calm [OF same_view_connectionTimeout] by simp
  next
    case Reconnect
    with nr show ?thesis by simp
  next
    case (CallTimeout i m p)
    then show ?thesis
      using same_view_calm [OF same_view_callTimeout] by simp
  qed
  then have "calm (runTimer cb ?s1) s" using s1 by (rule calm_trans)
  with TimerFires cb show ?thesis by simp
next
  case (ReconnectResumes p)
  then show ?thesis using q by (simp add: calm_reconnectResume quiet_def)
qed

lemma quiet_run:
  "quiet s \<Longrightarrow> SetAutoReconnect True \<notin> set es \<Longrightarrow>
   quiet (run es s) \<and> console (run es s) = console s"
proof (induction es arbitrary: s)
  case Nil
  then show ?case by (simp add: run_def)
next
  case (Cons e es)
  from Cons.prems have ne: "e \<noteq> SetAutoReconnect True" and rest: "SetAutoReconnect True \<notin> set es"
    by auto
  have "calm (step s e) s"
    using Cons.prems(1) ne by (simp add: step_def calm_fire)
  then have q: "quiet (step s e) \<and> console (step s e) = console s"
    using Cons.prems(1) by (rule calm_quiet)
  with Cons.IH [of "step s e"] rest
  have "quiet (run es (step s e)) \<and> console (run es (step s e)) = console (step s e)"
    by blast
  with q show ?case by (simp add: run_def)
qed

lemma filter_index: "filter (\<lambda>i. rt = Some i) [0..<n] = (case rt of None \<Rightarrow> [] | Some t \<Rightarrow> if t < n then [t] else [])"
  by (induction n) (auto split: option.split)

lemma armed_recorded:
  assumes "timer_inv s"
  shows "armed_reconnects s = (case reconnectTimer s of None \<Rightarrow> [] | Some t \<Rightarrow> [t])"
proof -
  have "is_reconnect (timers s ! i) = (reconnectTimer s = Some i)" if "i < length (timers s)" for i
  proof
    assume "is_reconnect (timers s ! i)"
    with assms that show "reconnectTimer s = Some i"
      unfolding timer_inv_def by (rule view_inv_armed)
  next
    assume "reconnectTimer s = Some i"
    with assms have "timers s ! i = Some (Reconnect, 10000)"
      unfolding timer_inv_def by (auto dest: view_inv_recorded)
    then show "is_reconnect (timers s ! i)" by simp
  qed
  then have "armed_reconnects s = filter (\<lambda>i. reconnectTimer s = Some i) [0..<length (timers s)]"
    unfolding armed_reconnects_def by (intro filter_cong) auto
  also have "\<dots> = (case reconnectTimer s of None \<Rightarrow> []
                    | Some t \<Rightarrow> if t < length (timers s) then [t] else [])"
    by (rule filter_index)
  also have "\<dots> = (case reconnectTimer s of None \<Rightarrow> [] | Some t \<Rightarrow> [t])"
    using assms unfolding timer_inv_def
    by (cases "reconnectTimer s") (auto dest: view_inv_recorded)
  finally show ?thesis .
qed

lemma armed_quiet:
  assumes "quiet s"
  shows "armed_reconnects s = []"
proof -
  have "\<not> is_reconnect (timers s ! i)" if "i < length (timers s)" for i
  proof -
    from that have "timers s ! i \<in> set (timers s)" by simp
    with assms show ?thesis by (simp add: quiet_def)
  qed
  then show ?thesis
    unfolding armed_reconnects_def by (simp add: filter_empty_conv)
qed

lemma disconnect_frame:
  "autoReconnect (disconnect s) = False"
  "reconnectTimer (disconnect s) = None"
  "console (disconnect s) = console s"
  by (simp_all add: disconnect_def Let_def split: option.split)

lemma quiet_disconnect:
  assumes "timer_inv s"
  shows "quiet (disconnect s)"
proof -
  from assms have inv: "timer_inv (disconnect s)" by (rule timer_inv_disconnect)
  have "\<not> is_reconnect x" if "x \<in> set (timers (disconnect s))" for x
  proof
    assume r: "is_reconnect x"
    from that obtain i where i: "i < length (timers (disconnect s))"
      and x: "timers (disconnect s) ! i = x"
      by (auto simp: in_set_conv_nth)
    from inv i r x have "reconnectTimer (disconnect s) = Some i"
      unfolding timer_inv_def by (auto dest: view_inv_armed)
    then show False by (simp add: disconnect_frame)
  qed
  then show ?thesis by (simp add: quiet_def disconnect_frame)
qed

lemma close_without_session:
  assumes "\<not> (connected s \<and> autoReconnect s)"
  shows "reconnectTimer (step s (SockClose k)) = reconnectTimer s"
  using assms
  by (auto simp: step_def Let_def ws_onclose_def split: option.split)

lemma close_with_session:
  assumes "connected s" and "autoReconnect s" and "onclose (sockets s ! k) \<noteq> None"
    and "enabled (SockClose k) s"
  shows "reconnectTimer (step s (SockClose k)) \<noteq> None"
proof -
  from assms(4) have k: "k < length (sockets s)"
    by (auto simp: sock_ready_def split: if_splits)
  from assms(3) obtain cl where cl: "onclose (sockets s ! k) = Some cl" by auto
  with k have "onclose (sockets (upd_socket k (\<lambda>w. w\<lparr>readyState := CLOSED\<rparr>) s) ! k) = Some cl"
    by (simp add: upd_socket_def)
  with assms show ?thesis
    by (simp add: step_def Let_def ws_onclose_def scheduleReconnect_def setTimeout_def)
qed

lemma authenticated_session_run:
  "authenticated_session =
     run [Connect, SockOpen 0, SockMessage 0 (Parsed challenge_frame) ''h1'',
          SockMessage 0 (Parsed (res_ok_frame ''h1'' JNull)) []]
       (new_client ''ws://127.0.0.1:18789'' ''secret'' True)"
  by (simp add: authenticated_session_def handshaking_def fresh_client_def run_def)

lemma timer_inv_step:
  assumes "timer_inv s"
  shows "timer_inv (step s e)"
proof (cases "enabled e s")
  case True
  with assms have "timer_inv (fire e s)" by (rule timer_inv_fire)
  with True show ?thesis by (simp only: step_def if_True)
next
  case False
  with assms show ?thesis by (simp only: step_def if_False)
qed

lemma reconnectTimer_connect [simp]: "reconnectTimer (snd (connect s)) = reconnectTimer s"
proof (cases "(connected s \<and> ws_is_open s) \<or> connecting s \<noteq> None")
  case True
  then show ?thesis by (auto simp: connect_def)
next
  case False
  then have nc: "(connected s \<and> ws_is_open s) = False" and cn: "connecting s = None"
    by auto
  show ?thesis
    by (simp add: connect_def nc cn Let_def case_prod_beta new_promise_def setTimeout_def)
qed

lemma reconnectTimer_call [simp]:
  "reconnectTimer (snd (call method params uuid s)) = reconnectTimer s"
  by (simp add: call_def new_promise_def setTimeout_def Let_def case_prod_beta split: option.split)

lemma reconnectTimer_runTimer:
  "reconnectTimer (runTimer cb s) = reconnectTimer s \<or> reconnectTimer (runTimer cb s) = None"
proof (cases cb)
  case (ConnectionTimeout p)
  then show ?thesis using same_view_connectionTimeout [of p s] by (simp add: same_view_def)
next
  case Reconnect
  then show ?thesis
    by (simp add: reconnectCallback_def Let_def case_prod_beta split: connect_result.split)
next
  case (CallTimeout i m p)
  then show ?thesis using same_view_callTimeout [of i m p s] by (simp add: same_view_def)
qed

lemma reconnectTimer_fire:
  assumes "\<not> (\<exists>k. e = SockClose k \<and> connected s \<and> autoReconnect s)"
    and "\<not> (\<exists>p x. e = ReconnectResumes p \<and> autoReconnect s \<and> promises s ! p = Some (Rejected x))"
  shows "reconnectTimer (fire e s) = reconnectTimer s \<or> reconnectTimer (fire e s) = None"
proof (cases e)
  case Connect
  then show ?thesis by simp
next
  case Disconnect
  then show ?thesis by (simp add: disconnect_frame)
next
  case (SetAutoReconnect b)
  then show ?thesis by (simp add: setAutoReconnect_def Let_def)
next
  case (Call m ps u)
  then show ?thesis by simp
next
  case (SockOpen k)
  then show ?thesis by (simp add: Let_def ws_onopen_def split: option.split)
next
  case (SockMessage k raw uuid)
  have "reconnectTimer (ws_onmessage cl raw uuid s) = reconnectTimer s" for cl
    using same_view_ws_onmessage [of cl raw uuid s] by (simp add: same_view_def)
  with SockMessage show ?thesis by (simp split: option.split)
next
  case (SockError k)
  then show ?thesis by (simp add: ws_onerror_def Let_def split: option.split)
next
  case (SockClose k)
  with assms(1) have "\<not> (connected s \<and> autoReconnect s)" by simp
  with SockClose show ?thesis
    by (auto simp: Let_def ws_onclose_def split: option.split)
next
  case (TimerFires t)
  show ?thesis
  proof (cases "timers s ! t")
    case None
    with TimerFires show ?thesis by simp
  next
    case (Some x)
    obtain cb ms where "x = (cb, ms)" by (cases x)
    with Some TimerFires
      reconnectTimer_runTimer [of cb "s\<lparr>timers := (timers s)[t := None]\<rparr>"]
    show ?thesis by simp
  qed
next
  case (ReconnectResumes p)
  with assms(2) have "\<not> autoReconnect s \<or> (\<forall>x. promises s ! p \<noteq> Some (Rejected x))" by simp
  with ReconnectResumes show ?thesis
    by (auto simp: reconnectResume_def Let_def scheduleReconnect_def
          split: option.split settlement.split)
qed

lemma only_close_and_retry_arm:
  assumes inv: "timer_inv s"
    and "\<not> (\<exists>k. e = SockClose k \<and> connected s \<and> autoReconnect s)"
    and "\<not> (\<exists>p x. e = ReconnectResumes p \<and> autoReconnect s \<and> promises s ! p = Some (Rejected x))"
  shows "set (armed_reconnects (step s e)) \<subseteq> set (armed_reconnects s)"
proof (cases "enabled e s")
  case False
  then show ?thesis by (simp add: step_def)
next
  case True
  from inv have inv': "timer_inv (step s e)" by (rule timer_inv_step)
  from assms(2,3) have "reconnectTimer (fire e s) = reconnectTimer s \<or> reconnectTimer (fire e s) = None"
    by (rule reconnectTimer_fire)
  with True have "reconnectTimer (step s e) = reconnectTimer s \<or> reconnectTimer (step s e) = None"
    by (simp only: step_def if_True)
  then show ?thesis
    by (auto simp: armed_recorded [OF inv] armed_recorded [OF inv'] split: option.split)
qed

lemma close_arms:
  assumes "connected s" and "autoReconnect s" and "onclose (sockets s ! k) \<noteq> None"
    and "enabled (SockClose k) s"
  shows "reconnectTimer (step s (SockClose k)) =
           (case reconnectTimer s of None \<Rightarrow> Some (length (timers s)) | Some t \<Rightarrow> Some t)
         \<and> length (timers (step s (SockClose k))) =
           (case reconnectTimer s of None \<Rightarrow> Suc (length (timers s)) | Some t \<Rightarrow> length (timers s))"
proof -
  from assms(4) have k: "k < length (sockets s)"
    by (auto simp: sock_ready_def split: if_splits)
  from assms(3) obtain cl where cl: "onclose (sockets s ! k) = Some cl" by auto
  with k have "onclose (sockets (upd_socket k (\<lambda>w. w\<lparr>readyState := CLOSED\<rparr>) s) ! k) = Some cl"
    by (simp add: upd_socket_def)
  with assms show ?thesis
    by (simp add: step_def Let_def ws_onclose_def scheduleReconnect_def setTimeout_def
          split: option.split)
qed

lemma retry_arms:
  assumes "enabled (ReconnectResumes p) s" and "promises s ! p = Some (Rejected x)"
    and "autoReconnect s"
  shows "reconnectTimer (step s (ReconnectResumes p)) =
           (case reconnectTimer s of None \<Rightarrow> Some (length (timers s)) | Some t \<Rightarrow> Some t)"
  using assms
  by (simp add: step_def reconnectResume_def Let_def scheduleReconnect_def setTimeout_def
        split: option.split)

lemma expiry_connects:
  assumes "t < length (timers s)" and "timers s ! t = Some (Reconnect, ms)" and "autoReconnect s"
  shows "step s (TimerFires t) =
           (case connect (s\<lparr>timers := (timers s)[t := None], reconnectTimer := None,
                            console := console s @ [''[OpenClaw] Attempting reconnect...'']\<rparr>) of
              (Returned, s3) \<Rightarrow> s3
            | (Awaits p, s3) \<Rightarrow> s3\<lparr>reconnectAwait := reconnectAwait s3 @ [p]\<rparr>)"
  using assms
  by (simp add: step_def reconnectCallback_def Let_def case_prod_beta split: connect_result.split)

lemma connect_starts_attempt:
  assumes "\<not> connected s" and "connecting s = None" and "url_parses s"
  shows "fst (connect s) = Awaits (length (promises s))
         \<and> ws (snd (connect s)) = Some (length (sockets s))
         \<and> length (sockets (snd (connect s))) = Suc (length (sockets s))
         \<and> sock_ready (snd (connect s)) (length (sockets s)) = Some CONNECTING
         \<and> connecting (snd (connect s)) = Some (length (promises s))
         \<and> console (snd (connect s)) = console s
         \<and> reconnectAwait (snd (connect s)) = reconnectAwait s"
  using assms
  by (simp add: connect_def Let_def case_prod_beta new_promise_def setTimeout_def sock_ready_def
        nth_append cleanup_existing_def ws_close_def upd_socket_def split: option.split)

lemma console_connect [simp]: "console (snd (connect s)) = console s"
  using calm_connect [of s] by (simp add: calm_def)

subsection \<open>The pending map, the timers and the promises after each operation\<close>

lemma more_frames [simp]:
  "pendingRequests (clearTimeout t s) = pendingRequests s"
  "pendingRequests (upd_socket k f s) = pendingRequests s"
  "pendingRequests (snd (ws_send k fr s)) = pendingRequests s"
  "pendingRequests (snd (setTimeout cb ms s)) = pendingRequests s"
  "pendingRequests (snd (new_promise s)) = pendingRequests s"
  "pendingRequests (cleanup_existing s) = pendingRequests s"
  "promises (emit n a s) = promises s"
  "promises (clearTimeout t s) = promises s"
  "promises (upd_socket k f s) = promises s"
  "promises (ws_close k s) = promises s"
  "promises (close_current s) = promises s"
  "promises (snd (ws_send k fr s)) = promises s"
  "promises (snd (setTimeout cb ms s)) = promises s"
  "promises (cleanup_existing s) = promises s"
  "promises (snd (new_promise s)) = promises s @ [None]"
  "timers (snd (setTimeout cb ms s)) = timers s @ [Some (cb, ms)]"
  by (simp_all add: clearTimeout_def upd_socket_def ws_send_def setTimeout_def new_promise_def
        cleanup_existing_def ws_close_def close_current_def emit_def split: option.split)






lemma pending_connect [simp]: "pendingRequests (snd (connect s)) = pendingRequests s"
proof (cases "(connected s \<and> ws_is_open s) \<or> connecting s \<noteq> None")
  case True
  then show ?thesis by (auto simp: connect_def)
next
  case False
  then have nc: "(connected s \<and> ws_is_open s) = False" and cn: "connecting s = None"
    by auto
  show ?thesis
    by (simp add: connect_def nc cn Let_def case_prod_beta new_promise_def setTimeout_def)
qed

lemma pending_unchanged [simp]:
  "pendingRequests (connectionTimeout p s) = pendingRequests s"
  "pendingRequests (ws_onopen cl s) = pendingRequests s"
  "pendingRequests (ws_onclose cl s) = pendingRequests s"
  "pendingRequests (ws_onerror cl s) = pendingRequests s"
  "pendingRequests (scheduleReconnect s) = pendingRequests s"
  "pendingRequests (disconnect s) = pendingRequests s"
  "pendingRequests (setAutoReconnect en s) = pendingRequests s"
  "pendingRequests (reconnectResume q s) = pendingRequests s"
  "pendingRequests (reconnectCallback s) = pendingRequests s"
  by (simp_all add: connectionTimeout_def ws_onopen_def ws_onclose_def ws_onerror_def
        scheduleReconnect_def disconnect_def setAutoReconnect_def reconnectResume_def
        reconnectCallback_def setTimeout_def Let_def case_prod_beta
        split: option.split settlement.split connect_result.split)

text \<open>The timers after each operation.\<close>

lemma timers_same [simp]:
  "timers (handleMessage d s) = timers s"
  "timers (ws_onmessage cl raw uuid s) = timers s"
  "timers (callTimeout i m p s) = timers s"
  "timers (connectionTimeout p s) = timers s"
  using same_view_handleMessage [of d s] same_view_ws_onmessage [of cl raw uuid s]
    same_view_callTimeout [of i m p s] same_view_connectionTimeout [of p s]
  by (simp_all add: same_view_def)










lemma ws_is_open_irrelevant [simp]:
  "ws_is_open (s\<lparr>reconnectTimer := a\<rparr>) = ws_is_open s"
  "ws_is_open (s\<lparr>console := c\<rparr>) = ws_is_open s"
  "ws_is_open (s\<lparr>timers := ts\<rparr>) = ws_is_open s"
  by (simp_all add: ws_is_open_def sock_ready_def split: option.split)

lemma reconnectCallback_connect:
  "autoReconnect s \<Longrightarrow>
   reconnectCallback s =
     (case fst (connect (s\<lparr>reconnectTimer := None,
                           console := console s @ [''[OpenClaw] Attempting reconnect...'']\<rparr>)) of
        Returned \<Rightarrow> snd (connect (s\<lparr>reconnectTimer := None,
                           console := console s @ [''[OpenClaw] Attempting reconnect...'']\<rparr>))
      | Awaits q \<Rightarrow>
          (snd (connect (s\<lparr>reconnectTimer := None,
                           console := console s @ [''[OpenClaw] Attempting reconnect...'']\<rparr>)))
          \<lparr>reconnectAwait :=
             reconnectAwait (snd (connect (s\<lparr>reconnectTimer := None,
                           console := console s @ [''[OpenClaw] Attempting reconnect...'']\<rparr>)))
             @ [q]\<rparr>)"
  by (simp add: reconnectCallback_def Let_def case_prod_beta)

lemma reconnectCallback_off:
  "\<not> autoReconnect s \<Longrightarrow> reconnectCallback s = s\<lparr>reconnectTimer := None\<rparr>"
  by (simp add: reconnectCallback_def Let_def)


lemma evolves_refl [simp]: "evolves Q ps ps"
  by (simp add: evolves_def)

lemma evolves_trans: "evolves Q ps ps' \<Longrightarrow> evolves Q ps' ps'' \<Longrightarrow> evolves Q ps ps''"
  unfolding evolves_def by (metis le_trans less_le_trans)


lemma evolves_append [simp]: "evolves Q ps (ps @ xs)"
  by (simp add: evolves_def nth_append)










lemma promises_unchanged [simp]:
  "promises (ws_onopen cl s) = promises s"
  "promises (ws_onclose cl s) = promises s"
  "promises (scheduleReconnect s) = promises s"
  "promises (disconnect s) = promises s"
  "promises (setAutoReconnect en s) = promises s"
  "promises (reconnectResume q s) = promises s"
  by (simp_all add: ws_onopen_def ws_onclose_def scheduleReconnect_def disconnect_def
        setAutoReconnect_def reconnectResume_def setTimeout_def Let_def
        split: option.split settlement.split)






lemma closures_cong: "map handlers (sockets s') = map handlers (sockets s) \<Longrightarrow> closures s' = closures s"
  by (simp add: closures_def)

lemma closures_same_view: "same_view s' s \<Longrightarrow> closures s' = closures s"
  by (simp add: same_view_def closures_def)




lemma closures_ws_close [simp]: "closures (ws_close k s) = closures s"
  by (simp add: closures_def)




lemma tevolves_same [simp]: "tevolves C N ts ts"
  by (auto simp: tevolves_def)











text \<open>The socket handlers after each operation.\<close>

lemma closures_unchanged [simp]:
  "closures (s\<lparr>timers := ts\<rparr>) = closures s"
  "closures (s\<lparr>reconnectTimer := rt\<rparr>) = closures s"
  "closures (s\<lparr>console := c\<rparr>) = closures s"
  "closures (s\<lparr>reconnectAwait := ra\<rparr>) = closures s"
  "closures (upd_socket k (\<lambda>w. w\<lparr>readyState := r\<rparr>) s) = closures s"
  "closures (ws_onopen cl s) = closures s"
  "closures (ws_onerror cl s) = closures s"
  "closures (ws_onclose cl s) = closures s"
  "closures (setAutoReconnect en s) = closures s"
  "closures (reconnectResume q s) = closures s"
  "closures (ws_onmessage cl raw uuid s) = closures s"
  "closures (callTimeout i m p s) = closures s"
  "closures (connectionTimeout p s) = closures s"
  "closures (snd (call method params uuid s)) = closures s"
proof -
  show "closures (ws_onmessage cl raw uuid s) = closures s"
    using same_view_ws_onmessage [of cl raw uuid s] by (rule closures_same_view)
  show "closures (callTimeout i m p s) = closures s"
    using same_view_callTimeout [of i m p s] by (rule closures_same_view)
  show "closures (connectionTimeout p s) = closures s"
    using same_view_connectionTimeout [of p s] by (rule closures_same_view)
  show "closures (snd (call method params uuid s)) = closures s"
    by (simp add: closures_def call_def new_promise_def setTimeout_def Let_def case_prod_beta
          ws_send_def settle_def split: option.split)
qed (simp_all add: closures_def ws_onopen_def ws_onerror_def ws_onclose_def setAutoReconnect_def
      reconnectResume_def scheduleReconnect_def setTimeout_def settle_def emit_def Let_def
      split: option.split settlement.split)






subsection \<open>Call timeout\<close>

























subsection \<open>The reconnect scheduler\<close>

lemma current_only_cong:
  assumes "ws s' = ws s" and "map handlers (sockets s') = map handlers (sockets s)"
  shows "current_only s' = current_only s"
proof -
  from assms(2) have len: "length (sockets s') = length (sockets s)"
    by (metis length_map)
  have "onclose (sockets s' ! k) = onclose (sockets s ! k)" if "k < length (sockets s)" for k
  proof -
    from that len have "handlers (sockets s' ! k) = map handlers (sockets s') ! k" by simp
    also have "\<dots> = handlers (sockets s ! k)" using that by (simp add: assms(2))
    finally show ?thesis by (simp add: handlers_def)
  qed
  with len assms(1) show ?thesis by (simp add: current_only_def)
qed

lemma current_only_same_view: "same_view s' s \<Longrightarrow> current_only s' = current_only s"
  by (rule current_only_cong) (simp_all add: same_view_def)

lemma current_only_new_client: "current_only (new_client a tok b)"
  by (simp add: current_only_def new_client_def)

lemma current_onlyD:
  "current_only s \<Longrightarrow> k < length (sockets s) \<Longrightarrow> ws s \<noteq> Some k \<Longrightarrow>
   onclose (sockets s ! k) = None"
  unfolding current_only_def by blast

lemma onclose_cleanup_existing:
  assumes "current_only s" and "k < length (sockets s)"
  shows "onclose (sockets (cleanup_existing s) ! k) = None"
proof (cases "ws s")
  case None
  with assms have "onclose (sockets s ! k) = None" by (intro current_onlyD) simp_all
  with None show ?thesis by (simp add: cleanup_existing_def)
next
  case (Some j)
  with assms have "k \<noteq> j \<Longrightarrow> onclose (sockets s ! k) = None"
    by (intro current_onlyD) simp_all
  with Some assms(2) show ?thesis
    by (auto simp: cleanup_existing_def ws_close_def upd_socket_def nth_list_update)
qed

lemma current_only_connect:
  assumes "current_only s"
  shows "current_only (snd (connect s))"
proof (cases "(connected s \<and> ws_is_open s) \<or> connecting s \<noteq> None")
  case True
  with assms show ?thesis by (auto simp: connect_def)
next
  case False
  then have nc: "(connected s \<and> ws_is_open s) = False" and cn: "connecting s = None"
    by auto
  let ?s2 = "cleanup_existing (s\<lparr>promises := promises s @ [None]\<rparr>)"
  from assms have "current_only (s\<lparr>promises := promises s @ [None]\<rparr>)"
    by (simp add: current_only_def)
  then have none: "onclose (sockets ?s2 ! k) = None" if "k < length (sockets s)" for k
    using that by (intro onclose_cleanup_existing) simp_all
  have len: "length (sockets ?s2) = length (sockets s)" by simp
  show ?thesis
  proof (cases "url_parses s")
    case False
    then have "sockets (snd (connect s)) = sockets ?s2"
      by (simp add: connect_def nc cn Let_def case_prod_beta new_promise_def settle_def)
    with none len show ?thesis by (simp add: current_only_def)
  next
    case True
    then have "ws (snd (connect s)) = Some (length (sockets s))
        \<and> (\<exists>w. sockets (snd (connect s)) = sockets ?s2 @ [w])"
      by (simp add: connect_def nc cn Let_def case_prod_beta new_promise_def setTimeout_def)
    with none len show ?thesis
      by (auto simp: current_only_def nth_append less_Suc_eq)
  qed
qed

lemma current_only_disconnect:
  assumes "current_only s"
  shows "current_only (disconnect s)"
proof -
  have "onclose (sockets (disconnect s) ! k) = None" if "k < length (sockets s)" for k
  proof (cases "ws s")
    case None
    with assms that have "onclose (sockets s ! k) = None" by (intro current_onlyD) simp_all
    with None show ?thesis
      by (simp add: disconnect_def Let_def clearTimeout_def split: option.split)
  next
    case (Some j)
    with assms that have "k \<noteq> j \<Longrightarrow> onclose (sockets s ! k) = None"
      by (intro current_onlyD) simp_all
    with Some that show ?thesis
      by (auto simp: disconnect_def Let_def ws_close_def upd_socket_def clearTimeout_def
            sock_ready_def nth_list_update split: option.split)
  qed
  moreover have "length (sockets (disconnect s)) = length (sockets s)"
    by (simp add: disconnect_def Let_def ws_close_def upd_socket_def clearTimeout_def
          split: option.split)
  ultimately show ?thesis by (simp add: current_only_def)
qed

lemma current_only_reconnectCallback:
  assumes "current_only s"
  shows "current_only (reconnectCallback s)"
proof (cases "autoReconnect s")
  case False
  with assms show ?thesis by (simp add: reconnectCallback_off current_only_def)
next
  case True
  let ?s1 = "s\<lparr>reconnectTimer := None,
               console := console s @ [''[OpenClaw] Attempting reconnect...'']\<rparr>"
  from assms have "current_only ?s1" by (simp add: current_only_def)
  then have "current_only (snd (connect ?s1))" by (rule current_only_connect)
  moreover have "current_only (reconnectCallback s) = current_only (snd (connect ?s1))"
    using True
    by (simp add: reconnectCallback_connect current_only_def split: connect_result.split)
  ultimately show ?thesis by simp
qed

lemma current_only_unchanged [simp]:
  "current_only (s\<lparr>timers := ts\<rparr>) = current_only s"
  "current_only (upd_socket k (\<lambda>w. w\<lparr>readyState := r\<rparr>) s) = current_only s"
  "current_only (ws_onopen cl s) = current_only s"
  "current_only (ws_onerror cl s) = current_only s"
  "current_only (ws_onclose cl s) = current_only s"
  "current_only (setAutoReconnect en s) = current_only s"
  "current_only (reconnectResume q s) = current_only s"
  "current_only (ws_onmessage cl raw uuid s) = current_only s"
  "current_only (callTimeout i m p s) = current_only s"
  "current_only (connectionTimeout p s) = current_only s"
  "current_only (snd (call method params uuid s)) = current_only s"
proof -
  show "current_only (ws_onmessage cl raw uuid s) = current_only s"
    using same_view_ws_onmessage [of cl raw uuid s] by (rule current_only_same_view)
  show "current_only (callTimeout i m p s) = current_only s"
    using same_view_callTimeout [of i m p s] by (rule current_only_same_view)
  show "current_only (connectionTimeout p s) = current_only s"
    using same_view_connectionTimeout [of p s] by (rule current_only_same_view)
  show "current_only (upd_socket k (\<lambda>w. w\<lparr>readyState := r\<rparr>) s) = current_only s"
  proof (rule current_only_cong)
    show "ws (upd_socket k (\<lambda>w. w\<lparr>readyState := r\<rparr>) s) = ws s"
      by (simp add: upd_socket_def)
    show "map handlers (sockets (upd_socket k (\<lambda>w. w\<lparr>readyState := r\<rparr>) s))
          = map handlers (sockets s)"
      by (rule map_handlers_set_ready)
  qed
  show "current_only (snd (call method params uuid s)) = current_only s"
    by (simp add: current_only_def call_def new_promise_def setTimeout_def Let_def case_prod_beta
          ws_send_def settle_def split: option.split)
qed (simp_all add: current_only_def ws_onopen_def ws_onerror_def ws_onclose_def
      setAutoReconnect_def reconnectResume_def scheduleReconnect_def setTimeout_def settle_def
      emit_def clearTimeout_def Let_def split: option.split settlement.split)

lemma current_only_fire:
  assumes "current_only s"
  shows "current_only (fire e s)"
proof (cases e)
  case Connect
  with assms show ?thesis by (simp add: current_only_connect)
next
  case Disconnect
  with assms show ?thesis by (simp add: current_only_disconnect)
next
  case (SetAutoReconnect b)
  with assms show ?thesis by simp
next
  case (Call m ps u)
  with assms show ?thesis by simp
next
  case (SockOpen k)
  with assms show ?thesis by (simp add: Let_def split: option.split)
next
  case (SockMessage k raw uuid)
  with assms show ?thesis by (simp split: option.split)
next
  case (SockError k)
  with assms show ?thesis by (simp split: option.split)
next
  case (SockClose k)
  with assms show ?thesis by (simp add: Let_def split: option.split)
next
  case (TimerFires t)
  show ?thesis
  proof (cases "timers s ! t")
    case None
    with assms TimerFires show ?thesis by simp
  next
    case (Some y)
    obtain cb ms where y: "y = (cb, ms)" by (cases y)
    from assms have "current_only (s\<lparr>timers := (timers s)[t := None]\<rparr>)" by simp
    then have "current_only (runTimer cb (s\<lparr>timers := (timers s)[t := None]\<rparr>))"
      by (cases cb) (simp_all add: current_only_reconnectCallback)
    with TimerFires Some y show ?thesis by simp
  qed
next
  case (ReconnectResumes p)
  with assms show ?thesis by simp
qed

lemma current_only_run: "current_only s \<Longrightarrow> current_only (run es s)"
  unfolding run_def
  by (induction es arbitrary: s) (simp_all add: step_def current_only_fire)

lemma close_of_old_socket:
  assumes "current_only s" and "ws s \<noteq> Some k"
  shows "step s (SockClose k) = s
         \<or> step s (SockClose k) = upd_socket k (\<lambda>w. w\<lparr>readyState := CLOSED\<rparr>) s"
proof (cases "enabled (SockClose k) s")
  case False
  then show ?thesis by (simp add: step_def)
next
  case True
  then have k: "k < length (sockets s)" by (auto simp: sock_ready_def split: if_splits)
  with assms have "onclose (sockets s ! k) = None" by (intro current_onlyD)
  with k have "onclose (sockets (upd_socket k (\<lambda>w. w\<lparr>readyState := CLOSED\<rparr>) s) ! k) = None"
    by (simp add: upd_socket_def)
  with True show ?thesis by (simp add: step_def Let_def)
qed

lemma closed_session_run:
  "closed_session =
     run [Connect, SockOpen 0, SockMessage 0 (Parsed challenge_frame) ''h1'',
          SockMessage 0 (Parsed (res_ok_frame ''h1'' JNull)) [], SockClose 0]
       (new_client ''ws://127.0.0.1:18789'' ''secret'' True)"
  by (simp add: closed_session_def authenticated_session_def handshaking_def fresh_client_def
        run_def)

lemma reconnecting_run:
  "reconnecting =
     run [Connect, SockOpen 0, SockMessage 0 (Parsed challenge_frame) ''h1'',
          SockMessage 0 (Parsed (res_ok_frame ''h1'' JNull)) [], SockClose 0,
          TimerFires 1, SockError 1]
       (new_client ''ws://127.0.0.1:18789'' ''secret'' True)"
  by (simp add: reconnecting_def closed_session_def authenticated_session_def handshaking_def
        fresh_client_def run_def)

lemma second_session_run:
  "second_session =
     run [Connect, SockOpen 0, SockMessage 0 (Parsed challenge_frame) ''h1'',
          SockMessage 0 (Parsed (res_ok_frame ''h1'' JNull)) [], SockClose 0,
          Connect, SockOpen 1, SockMessage 1 (Parsed challenge_frame) ''h3'',
          SockMessage 1 (Parsed (res_ok_frame ''h3'' JNull)) []]
       (new_client ''ws://127.0.0.1:18789'' ''secret'' True)"
  by (simp add: second_session_def closed_session_def authenticated_session_def handshaking_def
        fresh_client_def run_def)

lemma stale_session_run:
  "stale_session =
     run [Connect, SockOpen 0, SockMessage 0 (Parsed challenge_frame) ''h1'',
          SockMessage 0 (Parsed challenge_frame) ''h2'',
          SockMessage 0 (Parsed (res_ok_frame ''h1'' JNull)) [],
          SockMessage 0 (Parsed (res_error_frame ''h2'' ''denied'')) [],
          Connect]
       (new_client ''ws://127.0.0.1:18789'' ''secret'' True)"
  by (simp add: stale_session_def handshaking_def fresh_client_def run_def)

lemma armed_reconnects_set_ready [simp]:
  "armed_reconnects (upd_socket k (\<lambda>w. w\<lparr>readyState := r\<rparr>) s) = armed_reconnects s"
  by (simp add: armed_reconnects_def upd_socket_def)

lemma reconnectTimer_set_ready [simp]:
  "reconnectTimer (upd_socket k (\<lambda>w. w\<lparr>readyState := r\<rparr>) s) = reconnectTimer s"
  by (simp add: upd_socket_def)

text \<open>
  C3, as stated, fails in both directions. A reconnect is also scheduled with no socket
  closing: when a reconnect attempt fails (here the new socket reports an error), the
  \<open>catch\<close> block of the reconnect callback arms the next reconnect timer. And a close of an
  authenticated session arms no timer when one is pending already: here the caller
  reconnected by hand before the timer of the first close expired, and the close of the
  second session leaves the timers as they were.
\<close>

theorem retry_arms_without_close_counterexample:
  "armed_reconnects reconnecting = []
   \<and> \<not> connected reconnecting
   \<and> enabled (ReconnectResumes 1) reconnecting
   \<and> armed_reconnects (step reconnecting (ReconnectResumes 1)) = [3]
   \<and> timers (step reconnecting (ReconnectResumes 1)) ! 3 = Some (Reconnect, 10000)
   \<and> sockets (step reconnecting (ReconnectResumes 1)) = sockets reconnecting
   \<and> connected second_session \<and> autoReconnect second_session \<and> ws second_session = Some 1
   \<and> enabled (SockClose 1) second_session
   \<and> timers second_session = [None, Some (Reconnect, 10000), None]
   \<and> timers (step second_session (SockClose 1)) = [None, Some (Reconnect, 10000), None]"
  unfolding reconnecting_eq second_session_eq
  by (simp add: client_defs armed_reconnects_def is_reconnect_def upt_rec)

text \<open>
  C3, amended. Let the client be in any state reached from a new client. A reconnect is
  scheduled by two kinds of step only, both with auto-reconnect on: the close of the current
  socket while the session is connected (the handshake has succeeded), and the resumption of
  a reconnect callback whose attempt was rejected. No other step adds an armed reconnect
  timer; in particular the close of a socket while the session is not connected, or
  auto-reconnect is off, or the socket is not the current one, leaves \<open>reconnectTimer\<close> and
  the armed reconnect timers as they were. After each of the two steps exactly one reconnect
  timer is armed, with a delay of 10000 ms: a new one when none was pending, the pending one
  otherwise. When the recorded reconnect timer expires, the callback logs the attempt and
  calls \<open>connect\<close> once, on the client with the timer spent and \<open>reconnectTimer\<close> cleared, and
  waits for the promise that \<open>connect\<close> returns; no reconnect timer is armed then, and when
  the client is neither connected nor connecting and the URL is accepted, the call starts a
  new attempt on a new socket. After \<open>disconnect\<close>, whatever happens next short of
  \<open>setAutoReconnect(true)\<close> (timers expiring, sockets closing, further calls), no reconnect
  timer is armed and the reconnect callback never runs: the console gains no
  reconnect-attempt line.
\<close>

theorem reconnect_policy:
  assumes "s = run es (new_client u tok b)"
  shows "(\<not> (\<exists>k. e = SockClose k \<and> connected s \<and> autoReconnect s \<and> ws s = Some k)
          \<and> \<not> (\<exists>p x. e = ReconnectResumes p \<and> autoReconnect s
                      \<and> promises s ! p = Some (Rejected x)) \<longrightarrow>
            set (armed_reconnects (step s e)) \<subseteq> set (armed_reconnects s))
       \<and> (\<not> (connected s \<and> autoReconnect s \<and> ws s = Some k) \<longrightarrow>
            reconnectTimer (step s (SockClose k)) = reconnectTimer s
            \<and> armed_reconnects (step s (SockClose k)) = armed_reconnects s)
       \<and> (connected s \<and> autoReconnect s \<and> ws s = Some k \<and> enabled (SockClose k) s \<longrightarrow>
            reconnectTimer (step s (SockClose k)) =
              Some (case reconnectTimer s of None \<Rightarrow> length (timers s) | Some t \<Rightarrow> t)
            \<and> armed_reconnects (step s (SockClose k)) =
              [case reconnectTimer s of None \<Rightarrow> length (timers s) | Some t \<Rightarrow> t]
            \<and> timers (step s (SockClose k))
                 ! (case reconnectTimer s of None \<Rightarrow> length (timers s) | Some t \<Rightarrow> t)
               = Some (Reconnect, 10000)
            \<and> length (timers (step s (SockClose k))) =
                (case reconnectTimer s of None \<Rightarrow> Suc (length (timers s))
                                        | Some t \<Rightarrow> length (timers s)))
       \<and> (enabled (ReconnectResumes p) s \<and> promises s ! p = Some (Rejected x)
            \<and> autoReconnect s \<longrightarrow>
            reconnectTimer (step s (ReconnectResumes p)) =
              Some (case reconnectTimer s of None \<Rightarrow> length (timers s) | Some t \<Rightarrow> t)
            \<and> armed_reconnects (step s (ReconnectResumes p)) =
              [case reconnectTimer s of None \<Rightarrow> length (timers s) | Some t \<Rightarrow> t]
            \<and> timers (step s (ReconnectResumes p))
                 ! (case reconnectTimer s of None \<Rightarrow> length (timers s) | Some t \<Rightarrow> t)
               = Some (Reconnect, 10000))
       \<and> (reconnectTimer s = Some t \<longrightarrow>
            enabled (TimerFires t) s
            \<and> step s (TimerFires t) =
                (case connect (s\<lparr>timers := (timers s)[t := None], reconnectTimer := None,
                                 console := console s @ [''[OpenClaw] Attempting reconnect...'']\<rparr>) of
                   (Returned, s3) \<Rightarrow> s3
                 | (Awaits q, s3) \<Rightarrow> s3\<lparr>reconnectAwait := reconnectAwait s3 @ [q]\<rparr>)
            \<and> console (step s (TimerFires t)) =
                console s @ [''[OpenClaw] Attempting reconnect...'']
            \<and> armed_reconnects (step s (TimerFires t)) = []
            \<and> (\<not> connected s \<and> connecting s = None \<and> url_parses s \<longrightarrow>
                 ws (step s (TimerFires t)) = Some (length (sockets s))
                 \<and> sock_ready (step s (TimerFires t)) (length (sockets s)) = Some CONNECTING
                 \<and> connecting (step s (TimerFires t)) = Some (length (promises s))
                 \<and> reconnectAwait (step s (TimerFires t)) =
                     reconnectAwait s @ [length (promises s)]))
       \<and> (SetAutoReconnect True \<notin> set es' \<longrightarrow>
            armed_reconnects (run es' (disconnect s)) = []
            \<and> console (run es' (disconnect s)) = console s)"
proof -
  have inv: "timer_inv s"
    unfolding assms by (rule timer_inv_run) (rule timer_inv_new_client)
  have cur: "current_only s"
    unfolding assms by (rule current_only_run) (rule current_only_new_client)
  have inv': "timer_inv (step s e')" for e'
    using inv by (rule timer_inv_step)
  have recorded: "timers (step s e') ! t' = Some (Reconnect, 10000)
      \<and> armed_reconnects (step s e') = [t']"
    if "reconnectTimer (step s e') = Some t'" for e' t'
  proof -
    from inv' [of e'] that have "timers (step s e') ! t' = Some (Reconnect, 10000)"
      unfolding timer_inv_def by (auto dest: view_inv_recorded)
    moreover from that have "armed_reconnects (step s e') = [t']"
      by (simp add: armed_recorded inv')
    ultimately show ?thesis by blast
  qed
  have old: "reconnectTimer (step s (SockClose j)) = reconnectTimer s
      \<and> armed_reconnects (step s (SockClose j)) = armed_reconnects s"
    if "ws s \<noteq> Some j" for j
    using close_of_old_socket [OF cur that] by auto
  have a: "set (armed_reconnects (step s e)) \<subseteq> set (armed_reconnects s)"
    if h: "\<not> (\<exists>k. e = SockClose k \<and> connected s \<and> autoReconnect s \<and> ws s = Some k)
        \<and> \<not> (\<exists>p x. e = ReconnectResumes p \<and> autoReconnect s
                    \<and> promises s ! p = Some (Rejected x))"
  proof (cases "\<exists>j. e = SockClose j \<and> ws s \<noteq> Some j")
    case True
    then obtain j where "e = SockClose j" "ws s \<noteq> Some j" by blast
    with old [of j] show ?thesis by simp
  next
    case False
    with h have "\<not> (\<exists>k. e = SockClose k \<and> connected s \<and> autoReconnect s)" by blast
    with inv h show ?thesis by (intro only_close_and_retry_arm) blast+
  qed
  have b: "reconnectTimer (step s (SockClose k)) = reconnectTimer s
      \<and> armed_reconnects (step s (SockClose k)) = armed_reconnects s"
    if h: "\<not> (connected s \<and> autoReconnect s \<and> ws s = Some k)"
  proof (cases "ws s = Some k")
    case False
    then show ?thesis by (rule old)
  next
    case True
    with h have "\<not> (connected s \<and> autoReconnect s)" by simp
    then have "reconnectTimer (step s (SockClose k)) = reconnectTimer s"
      by (rule close_without_session)
    then show ?thesis by (simp add: armed_recorded inv inv')
  qed
  have c: "reconnectTimer (step s (SockClose k)) =
              Some (case reconnectTimer s of None \<Rightarrow> length (timers s) | Some t \<Rightarrow> t)
      \<and> armed_reconnects (step s (SockClose k)) =
              [case reconnectTimer s of None \<Rightarrow> length (timers s) | Some t \<Rightarrow> t]
      \<and> timers (step s (SockClose k))
           ! (case reconnectTimer s of None \<Rightarrow> length (timers s) | Some t \<Rightarrow> t)
         = Some (Reconnect, 10000)
      \<and> length (timers (step s (SockClose k))) =
          (case reconnectTimer s of None \<Rightarrow> Suc (length (timers s))
                                  | Some t \<Rightarrow> length (timers s))"
    if h: "connected s \<and> autoReconnect s \<and> ws s = Some k \<and> enabled (SockClose k) s"
  proof -
    from inv h have "k < length (map handlers (sockets s))
        \<and> fst (snd (map handlers (sockets s) ! k)) \<noteq> None"
      unfolding timer_inv_def by (auto dest: view_inv_current)
    then have "onclose (sockets s ! k) \<noteq> None" by (auto simp: handlers_def)
    with h have arms: "reconnectTimer (step s (SockClose k)) =
           (case reconnectTimer s of None \<Rightarrow> Some (length (timers s)) | Some t \<Rightarrow> Some t)
         \<and> length (timers (step s (SockClose k))) =
           (case reconnectTimer s of None \<Rightarrow> Suc (length (timers s)) | Some t \<Rightarrow> length (timers s))"
      by (intro close_arms) auto
    then have rec: "reconnectTimer (step s (SockClose k)) =
        Some (case reconnectTimer s of None \<Rightarrow> length (timers s) | Some t \<Rightarrow> t)"
      by (simp split: option.split)
    from recorded [OF rec] rec arms show ?thesis by blast
  qed
  have d: "reconnectTimer (step s (ReconnectResumes p)) =
              Some (case reconnectTimer s of None \<Rightarrow> length (timers s) | Some t \<Rightarrow> t)
      \<and> armed_reconnects (step s (ReconnectResumes p)) =
              [case reconnectTimer s of None \<Rightarrow> length (timers s) | Some t \<Rightarrow> t]
      \<and> timers (step s (ReconnectResumes p))
           ! (case reconnectTimer s of None \<Rightarrow> length (timers s) | Some t \<Rightarrow> t)
         = Some (Reconnect, 10000)"
    if h: "enabled (ReconnectResumes p) s \<and> promises s ! p = Some (Rejected x) \<and> autoReconnect s"
  proof -
    from h have "reconnectTimer (step s (ReconnectResumes p)) =
           (case reconnectTimer s of None \<Rightarrow> Some (length (timers s)) | Some t \<Rightarrow> Some t)"
      by (intro retry_arms) auto
    then have rec: "reconnectTimer (step s (ReconnectResumes p)) =
        Some (case reconnectTimer s of None \<Rightarrow> length (timers s) | Some t \<Rightarrow> t)"
      by (simp split: option.split)
    from recorded [OF rec] rec show ?thesis by blast
  qed
  have e: "enabled (TimerFires t) s
      \<and> step s (TimerFires t) =
          (case connect (s\<lparr>timers := (timers s)[t := None], reconnectTimer := None,
                           console := console s @ [''[OpenClaw] Attempting reconnect...'']\<rparr>) of
             (Returned, s3) \<Rightarrow> s3
           | (Awaits q, s3) \<Rightarrow> s3\<lparr>reconnectAwait := reconnectAwait s3 @ [q]\<rparr>)
      \<and> console (step s (TimerFires t)) =
          console s @ [''[OpenClaw] Attempting reconnect...'']
      \<and> armed_reconnects (step s (TimerFires t)) = []
      \<and> (\<not> connected s \<and> connecting s = None \<and> url_parses s \<longrightarrow>
           ws (step s (TimerFires t)) = Some (length (sockets s))
           \<and> sock_ready (step s (TimerFires t)) (length (sockets s)) = Some CONNECTING
           \<and> connecting (step s (TimerFires t)) = Some (length (promises s))
           \<and> reconnectAwait (step s (TimerFires t)) =
               reconnectAwait s @ [length (promises s)])"
    if rt: "reconnectTimer s = Some t"
  proof -
    let ?s2 = "s\<lparr>timers := (timers s)[t := None], reconnectTimer := None,
                  console := console s @ [''[OpenClaw] Attempting reconnect...'']\<rparr>"
    from inv rt have t: "t < length (timers s) \<and> timers s ! t = Some (Reconnect, 10000)
        \<and> autoReconnect s"
      unfolding timer_inv_def by (auto dest: view_inv_recorded)
    then have en: "enabled (TimerFires t) s" by simp
    from t have eq: "step s (TimerFires t) =
          (case connect ?s2 of
             (Returned, s3) \<Rightarrow> s3
           | (Awaits q, s3) \<Rightarrow> s3\<lparr>reconnectAwait := reconnectAwait s3 @ [q]\<rparr>)"
      by (intro expiry_connects) auto
    have eq': "step s (TimerFires t) =
          (case fst (connect ?s2) of
             Returned \<Rightarrow> snd (connect ?s2)
           | Awaits q \<Rightarrow> (snd (connect ?s2))\<lparr>reconnectAwait := reconnectAwait (snd (connect ?s2)) @ [q]\<rparr>)"
      unfolding eq by (simp add: case_prod_beta)
    have con: "console (step s (TimerFires t)) =
          console s @ [''[OpenClaw] Attempting reconnect...'']"
      unfolding eq' by (simp split: connect_result.split)
    have "reconnectTimer (step s (TimerFires t)) = None"
      unfolding eq' by (simp split: connect_result.split)
    then have arm: "armed_reconnects (step s (TimerFires t)) = []"
      by (simp add: armed_recorded inv')
    have att: "ws (step s (TimerFires t)) = Some (length (sockets s))
           \<and> sock_ready (step s (TimerFires t)) (length (sockets s)) = Some CONNECTING
           \<and> connecting (step s (TimerFires t)) = Some (length (promises s))
           \<and> reconnectAwait (step s (TimerFires t)) =
               reconnectAwait s @ [length (promises s)]"
      if "\<not> connected s \<and> connecting s = None \<and> url_parses s"
    proof -
      from that have "\<not> connected ?s2" "connecting ?s2 = None" "url_parses ?s2" by simp_all
      from connect_starts_attempt [OF this] show ?thesis
        unfolding eq' by (auto simp: sock_ready_def)
    qed
    from en eq con arm att show ?thesis by blast
  qed
  have f: "armed_reconnects (run es' (disconnect s)) = []
      \<and> console (run es' (disconnect s)) = console s"
    if "SetAutoReconnect True \<notin> set es'"
  proof -
    from inv have "quiet (disconnect s)" by (rule quiet_disconnect)
    then have "quiet (run es' (disconnect s))
        \<and> console (run es' (disconnect s)) = console (disconnect s)"
      using that by (rule quiet_run)
    then show ?thesis by (simp add: armed_quiet disconnect_frame)
  qed
  from a b c d e f show ?thesis by blast
qed

theorem reconnect_policy_witness:
  "armed_reconnects (step stale_session (SockClose 0)) = []
   \<and> armed_reconnects
        (step (run [Connect, SockOpen 0] (new_client ''ws://127.0.0.1:18789'' ''secret'' True))
           (SockClose 0)) = []
   \<and> connected authenticated_session \<and> autoReconnect authenticated_session
   \<and> ws authenticated_session = Some 0 \<and> enabled (SockClose 0) authenticated_session
   \<and> reconnectTimer (step authenticated_session (SockClose 0)) = Some 1
   \<and> armed_reconnects (step authenticated_session (SockClose 0)) = [1]
   \<and> timers (step authenticated_session (SockClose 0)) ! 1 = Some (Reconnect, 10000)
   \<and> length (timers (step authenticated_session (SockClose 0))) = 2
   \<and> reconnectTimer second_session = Some 1
   \<and> armed_reconnects (step second_session (SockClose 1)) = [1]
   \<and> length (timers (step second_session (SockClose 1))) = 3
   \<and> enabled (ReconnectResumes 1) reconnecting
   \<and> promises reconnecting ! 1 = Some (Rejected (Error ''Failed to connect to OpenClaw Gateway''))
   \<and> reconnectTimer (step reconnecting (ReconnectResumes 1)) = Some 3
   \<and> armed_reconnects (step reconnecting (ReconnectResumes 1)) = [3]
   \<and> timers (step reconnecting (ReconnectResumes 1)) ! 3 = Some (Reconnect, 10000)
   \<and> reconnectTimer closed_session = Some 1
   \<and> enabled (TimerFires 1) closed_session
   \<and> console (step closed_session (TimerFires 1)) = [''[OpenClaw] Attempting reconnect...'']
   \<and> armed_reconnects (step closed_session (TimerFires 1)) = []
   \<and> ws (step closed_session (TimerFires 1)) = Some 1
   \<and> sock_ready (step closed_session (TimerFires 1)) 1 = Some CONNECTING
   \<and> connecting (step closed_session (TimerFires 1)) = Some 1
   \<and> reconnectAwait (step closed_session (TimerFires 1)) = [1]
   \<and> armed_reconnects
        (run [SockClose 0, TimerFires 0, Connect, SockError 1] (disconnect authenticated_session)) = []
   \<and> console
        (run [SockClose 0, TimerFires 0, Connect, SockError 1] (disconnect authenticated_session)) = []"
proof -
  let ?c = "new_client ''ws://127.0.0.1:18789'' ''secret'' True"
  let ?s1 = "run [Connect, SockOpen 0] ?c"
  have st: "connected stale_session" "autoReconnect stale_session" "ws stale_session = Some 1"
    "armed_reconnects stale_session = []"
    by (simp_all add: stale_session_eq armed_reconnects_def is_reconnect_def upt_rec)
  from reconnect_policy [OF stale_session_run, of "SockClose 0" 0 0 TypeError 0 "[]"] st
  have a: "armed_reconnects (step stale_session (SockClose 0)) = []"
    by (simp del: enabled.simps)
  have s1: "\<not> (connected ?s1 \<and> autoReconnect ?s1 \<and> ws ?s1 = Some 0)" "armed_reconnects ?s1 = []"
    by (simp_all add: client_defs armed_reconnects_def is_reconnect_def)
  from reconnect_policy [of ?s1 "[Connect, SockOpen 0]" "''ws://127.0.0.1:18789''" "''secret''"
      True Connect 0 0 TypeError 0 "[]"] s1
  have b: "armed_reconnects (step ?s1 (SockClose 0)) = []" by (simp del: enabled.simps)
  have h: "connected authenticated_session \<and> autoReconnect authenticated_session
      \<and> ws authenticated_session = Some 0 \<and> enabled (SockClose 0) authenticated_session"
    by (simp add: authenticated_session_eq sock_ready_def)
  have h': "reconnectTimer authenticated_session = None" "length (timers authenticated_session) = 1"
    "console authenticated_session = []"
    by (simp_all add: authenticated_session_eq)
  have n: "SetAutoReconnect True \<notin> set [SockClose 0, TimerFires 0, Connect, SockError 1]"
    by simp
  note inst = reconnect_policy [OF authenticated_session_run, of Connect 0 0 TypeError 0
      "[SockClose 0, TimerFires 0, Connect, SockError 1]"]
  from inst h h' have c: "reconnectTimer (step authenticated_session (SockClose 0)) = Some 1
      \<and> armed_reconnects (step authenticated_session (SockClose 0)) = [1]
      \<and> timers (step authenticated_session (SockClose 0)) ! 1 = Some (Reconnect, 10000)
      \<and> length (timers (step authenticated_session (SockClose 0))) = 2"
    by (simp del: enabled.simps)
  from inst n h' have f: "armed_reconnects
        (run [SockClose 0, TimerFires 0, Connect, SockError 1] (disconnect authenticated_session)) = []
      \<and> console
        (run [SockClose 0, TimerFires 0, Connect, SockError 1] (disconnect authenticated_session)) = []"
    by (simp del: enabled.simps)
  have s2: "connected second_session \<and> autoReconnect second_session
      \<and> ws second_session = Some 1 \<and> enabled (SockClose 1) second_session"
    "reconnectTimer second_session = Some 1" "length (timers second_session) = 3"
    by (simp_all add: second_session_eq sock_ready_def)
  from reconnect_policy [OF second_session_run, of Connect 1 0 TypeError 0 "[]"] s2
  have c2: "armed_reconnects (step second_session (SockClose 1)) = [1]
      \<and> length (timers (step second_session (SockClose 1))) = 3"
    by (simp del: enabled.simps)
  have r: "enabled (ReconnectResumes 1) reconnecting
      \<and> promises reconnecting ! 1 = Some (Rejected (Error ''Failed to connect to OpenClaw Gateway''))
      \<and> autoReconnect reconnecting"
    "reconnectTimer reconnecting = None" "length (timers reconnecting) = 3"
    by (simp_all add: reconnecting_eq)
  from reconnect_policy [OF reconnecting_run, of Connect 0 1
      "Error ''Failed to connect to OpenClaw Gateway''" 0 "[]"] r
  have d: "reconnectTimer (step reconnecting (ReconnectResumes 1)) = Some 3
      \<and> armed_reconnects (step reconnecting (ReconnectResumes 1)) = [3]
      \<and> timers (step reconnecting (ReconnectResumes 1)) ! 3 = Some (Reconnect, 10000)"
    by (simp del: enabled.simps)
  have cs: "reconnectTimer closed_session = Some 1"
    "\<not> connected closed_session \<and> connecting closed_session = None \<and> url_parses closed_session"
    "length (sockets closed_session) = 1" "length (promises closed_session) = 1"
    "console closed_session = []" "reconnectAwait closed_session = []"
    by (simp_all add: closed_session_eq)
  from reconnect_policy [OF closed_session_run, of Connect 0 0 TypeError 1 "[]"] cs(1)
  have "enabled (TimerFires 1) closed_session
      \<and> console (step closed_session (TimerFires 1)) =
          console closed_session @ [''[OpenClaw] Attempting reconnect...'']
      \<and> armed_reconnects (step closed_session (TimerFires 1)) = []
      \<and> (\<not> connected closed_session \<and> connecting closed_session = None
           \<and> url_parses closed_session \<longrightarrow>
           ws (step closed_session (TimerFires 1)) = Some (length (sockets closed_session))
           \<and> sock_ready (step closed_session (TimerFires 1)) (length (sockets closed_session))
               = Some CONNECTING
           \<and> connecting (step closed_session (TimerFires 1))
               = Some (length (promises closed_session))
           \<and> reconnectAwait (step closed_session (TimerFires 1)) =
               reconnectAwait closed_session @ [length (promises closed_session)])"
    by blast
  with cs
  have e: "enabled (TimerFires 1) closed_session
      \<and> console (step closed_session (TimerFires 1)) = [''[OpenClaw] Attempting reconnect...'']
      \<and> armed_reconnects (step closed_session (TimerFires 1)) = []
      \<and> ws (step closed_session (TimerFires 1)) = Some 1
      \<and> sock_ready (step closed_session (TimerFires 1)) 1 = Some CONNECTING
      \<and> connecting (step closed_session (TimerFires 1)) = Some 1
      \<and> reconnectAwait (step closed_session (TimerFires 1)) = [1]"
    by (simp del: enabled.simps)
  from a b h c s2(2) c2 r(1) d cs(1) e f show ?thesis by blast
qed

end
